theory Spec2Isabelle
  imports Main "HOL-Library.Word"
begin

section \<open>k6ctl: archiving a k6 script and publishing it as a ConfigMap\<close>

text \<open>
  A shallow embedding of \<^verbatim>\<open>src/script/script.service.ts\<close>: the private helper
  \<^verbatim>\<open>sanitizeText\<close> and the three exported operations \<^verbatim>\<open>archiveTest\<close>,
  \<^verbatim>\<open>createConfigMap\<close> and \<^verbatim>\<open>deleteConfigMap\<close>. The file system, the clock, the
  \<^verbatim>\<open>k6\<close> subprocess and the Kubernetes client are collaborators of that code; they are
  explicit arguments of the model, and every call the code makes to them is recorded in an
  event trace.
\<close>

subsection \<open>Characters and the regular-expression classes of \<^verbatim>\<open>sanitizeText\<close>\<close>

text \<open>
  The paths, names and messages of the model are values of type \<^typ>\<open>string\<close>, one
  \<^typ>\<open>char\<close> per code unit, read as a code point in the range 0..255 (ASCII and
  Latin-1); code units above 255 are treated further below. The classes below are the
  character classes written in the regular expressions of the source:
  \<^verbatim>\<open>[a-z]\<close>, \<^verbatim>\<open>[0-9]\<close>, \<^verbatim>\<open>[a-z0-9]\<close>, \<^verbatim>\<open>[.-]\<close> and \<^verbatim>\<open>[a-z0-9.-]\<close>.
\<close>

definition is_lower :: "char \<Rightarrow> bool" where
  "is_lower c \<longleftrightarrow> 97 \<le> (of_char c :: nat) \<and> (of_char c :: nat) \<le> 122"

definition is_digit :: "char \<Rightarrow> bool" where
  "is_digit c \<longleftrightarrow> 48 \<le> (of_char c :: nat) \<and> (of_char c :: nat) \<le> 57"

definition is_alnum :: "char \<Rightarrow> bool" where
  "is_alnum c \<longleftrightarrow> is_lower c \<or> is_digit c"

definition is_sep :: "char \<Rightarrow> bool" where
  "is_sep c \<longleftrightarrow> c = CHR ''.'' \<or> c = CHR ''-''"

definition is_name_char :: "char \<Rightarrow> bool" where
  "is_name_char c \<longleftrightarrow> is_alnum c \<or> is_sep c"

text \<open>
  \<^verbatim>\<open>String.prototype.toLowerCase\<close> on the modelled range: \<^verbatim>\<open>A\<close>..\<^verbatim>\<open>Z\<close> and the
  Latin-1 capitals U+00C0..U+00DE (without the multiplication sign U+00D7) move up by 32;
  every other code point is unchanged.
\<close>

definition toLower :: "char \<Rightarrow> char" where
  "toLower c = (let n = (of_char c :: nat) in
     if (65 \<le> n \<and> n \<le> 90) \<or> (192 \<le> n \<and> n \<le> 222 \<and> n \<noteq> 215)
     then char_of (n + 32) else c)"

definition toLowerCase :: "string \<Rightarrow> string" where
  "toLowerCase s = map toLower s"

text \<open>
  \<^verbatim>\<open>s.replace(/[P]/g, r)\<close> with a one-character class \<open>P\<close>: every matching character is
  replaced by \<open>r\<close>.
\<close>

definition replace_char :: "('a \<Rightarrow> bool) \<Rightarrow> 'a \<Rightarrow> 'a list \<Rightarrow> 'a list" where
  "replace_char P r s = map (\<lambda>c. if P c then r else c) s"

text \<open>
  \<^verbatim>\<open>s.replace(/^[P]+|[P]+$/g, '')\<close>: the first alternative can only match at index 0 and
  takes the whole leading run of \<open>P\<close>; the second matches the run of \<open>P\<close> that reaches
  the end of the string. When every character is in \<open>P\<close> the first alternative removes
  the whole string.
\<close>

definition strip_ends :: "('a \<Rightarrow> bool) \<Rightarrow> 'a list \<Rightarrow> 'a list" where
  "strip_ends P s = rev (dropWhile P (rev (dropWhile P s)))"

text \<open>\<^verbatim>\<open>s.replace(/[c]+/g, 'c')\<close>: every maximal run of \<open>c\<close> shrinks to one \<open>c\<close>.\<close>

fun collapse :: "'a \<Rightarrow> 'a list \<Rightarrow> 'a list" where
  "collapse c (x # y # zs) =
     (if x = c \<and> y = c then collapse c (y # zs) else x # collapse c (y # zs))"
| "collapse c xs = xs"

text \<open>The seven assignments of \<^verbatim>\<open>sanitizeText\<close>, in the order of the source.\<close>

definition sanitizeText :: "string \<Rightarrow> string" where
  "sanitizeText text =
    (let sanitized = toLowerCase text;
         sanitized = replace_char (\<lambda>c. c = CHR ''_'') (CHR ''-'') sanitized;
         sanitized = replace_char (\<lambda>c. \<not> is_name_char c) (CHR ''-'') sanitized;
         sanitized = strip_ends (\<lambda>c. \<not> is_alnum c) sanitized;
         sanitized = collapse (CHR ''-'') sanitized;
         sanitized = collapse (CHR ''.'') sanitized;
         sanitized = strip_ends is_sep sanitized
     in sanitized)"

subsection \<open>\<^verbatim>\<open>sanitizeText\<close> on UTF-16 code units\<close>

text \<open>
  A JavaScript string is a sequence of 16-bit code units, and \<^verbatim>\<open>toLowerCase\<close> acts on
  all of them, so the same seven assignments are modelled a second time on lists of code
  units (numbers below 65536). Three kinds of code unit are lowercased into
  \<^verbatim>\<open>[a-z]\<close>: the capitals \<^verbatim>\<open>A\<close>..\<^verbatim>\<open>Z\<close>, the Kelvin sign U+212A (which becomes
  \<^verbatim>\<open>k\<close>) and the capital I with dot above U+0130 (which becomes \<^verbatim>\<open>i\<close> followed by the
  combining dot U+0307). The Latin-1 capitals move up by 32 as before. Every other cased
  letter is lowercased by the runtime into code units above 127, one for one; such units
  are kept as they are here, since the third assignment turns each of them into
  \<^verbatim>\<open>-\<close> whatever its value.
\<close>

type_synonym code_unit = nat

definition unit_is_alnum :: "code_unit \<Rightarrow> bool" where
  "unit_is_alnum u \<longleftrightarrow> (97 \<le> u \<and> u \<le> 122) \<or> (48 \<le> u \<and> u \<le> 57)"

definition unit_is_sep :: "code_unit \<Rightarrow> bool" where
  "unit_is_sep u \<longleftrightarrow> u = 46 \<or> u = 45"

definition unit_is_name_char :: "code_unit \<Rightarrow> bool" where
  "unit_is_name_char u \<longleftrightarrow> unit_is_alnum u \<or> unit_is_sep u"

definition lower_unit :: "code_unit \<Rightarrow> code_unit list" where
  "lower_unit u =
     (if (65 \<le> u \<and> u \<le> 90) \<or> (192 \<le> u \<and> u \<le> 222 \<and> u \<noteq> 215) then [u + 32]
      else if u = 0x130 then [0x69, 0x307]
      else if u = 0x212A then [0x6B]
      else [u])"

definition toLowerCase_utf16 :: "code_unit list \<Rightarrow> code_unit list" where
  "toLowerCase_utf16 s = concat (map lower_unit s)"

text \<open>The code units 95, 45 and 46 are \<^verbatim>\<open>_\<close>, \<^verbatim>\<open>-\<close> and \<^verbatim>\<open>.\<close>.\<close>

definition sanitizeText_utf16 :: "code_unit list \<Rightarrow> code_unit list" where
  "sanitizeText_utf16 text =
    (let sanitized = toLowerCase_utf16 text;
         sanitized = replace_char (\<lambda>u. u = 95) 45 sanitized;
         sanitized = replace_char (\<lambda>u. \<not> unit_is_name_char u) 45 sanitized;
         sanitized = strip_ends (\<lambda>u. \<not> unit_is_alnum u) sanitized;
         sanitized = collapse 45 sanitized;
         sanitized = collapse 46 sanitized;
         sanitized = strip_ends unit_is_sep sanitized
     in sanitized)"

text \<open>
  The code units of a string of the model. On such strings the two sanitizers agree
  (lemma \<open>sanitizeText_units\<close> below), so \<^const>\<open>sanitizeText\<close> is
  \<^const>\<open>sanitizeText_utf16\<close> on the strings whose code units are all below 256.
\<close>

definition units :: "string \<Rightarrow> code_unit list" where
  "units s = map of_char s"

subsection \<open>The functions of \<^verbatim>\<open>node:path\<close> the code calls (POSIX flavour)\<close>

text \<open>
  \<^verbatim>\<open>basename\<close>, \<^verbatim>\<open>parse(p).name\<close> and \<^verbatim>\<open>join\<close> belong to the Node.js runtime. They are
  modelled after \<^verbatim>\<open>path.posix\<close>: the separator is \<^verbatim>\<open>/\<close>.
\<close>

definition is_slash :: "char \<Rightarrow> bool" where
  "is_slash c \<longleftrightarrow> c = CHR ''/''"

definition trimTrailingSlashes :: "string \<Rightarrow> string" where
  "trimTrailingSlashes p = rev (dropWhile is_slash (rev p))"

definition lastPart :: "string \<Rightarrow> string" where
  "lastPart p = rev (takeWhile (\<lambda>c. \<not> is_slash c) (rev p))"

text \<open>\<^verbatim>\<open>basename(path)\<close>: trailing separators are ignored, the last component is returned.\<close>

definition basename :: "string \<Rightarrow> string" where
  "basename path = lastPart (trimTrailingSlashes path)"

definition beforeLastDot :: "string \<Rightarrow> string" where
  "beforeLastDot b = rev (tl (dropWhile (\<lambda>c. c \<noteq> CHR ''.'') (rev b)))"

text \<open>
  \<^verbatim>\<open>parse(path).name\<close>. Node scans the path from the right, never looking at the leading
  separator of an absolute path. The last component \<open>base\<close> is returned whole when it
  has no dot, when its last dot is its first character, or when it is exactly \<^verbatim>\<open>..\<close>
  (a test Node makes relative to \<^verbatim>\<open>startPart\<close>, which misses an absolute path whose only
  component is \<^verbatim>\<open>..\<close>); otherwise the part before the last dot is returned.
\<close>

definition parse_name :: "string \<Rightarrow> string" where
  "parse_name path =
    (let isAbsolute = (case path of [] \<Rightarrow> False | c # _ \<Rightarrow> is_slash c);
         scanned = (if isAbsolute then tl path else path);
         trimmed = trimTrailingSlashes scanned;
         base = lastPart trimmed;
         startPartFound = (\<exists>c \<in> set trimmed. is_slash c);
         stem = beforeLastDot base
     in if CHR ''.'' \<notin> set base then base
        else if stem = [] then base
        else if base = ''..'' \<and> (startPartFound \<or> \<not> isAbsolute) then base
        else stem)"

fun splitOn :: "(char \<Rightarrow> bool) \<Rightarrow> string \<Rightarrow> string list" where
  "splitOn P [] = [[]]"
| "splitOn P (c # cs) =
     (if P c then [] # splitOn P cs
      else (case splitOn P cs of [] \<Rightarrow> [[c]] | s # ss \<Rightarrow> (c # s) # ss))"

fun joinWith :: "string \<Rightarrow> string list \<Rightarrow> string" where
  "joinWith sep [] = []"
| "joinWith sep [s] = s"
| "joinWith sep (s # t # ss) = s @ sep @ joinWith sep (t # ss)"

text \<open>
  Node's \<^verbatim>\<open>normalizeString\<close> walks the segments between separators and keeps the result
  as a stack: empty segments and \<^verbatim>\<open>.\<close> are skipped, \<^verbatim>\<open>..\<close> removes the last kept
  segment unless there is none or it is \<^verbatim>\<open>..\<close> itself, in which case \<^verbatim>\<open>..\<close> is kept
  only when the path is relative.
\<close>

fun normalizeSegments :: "bool \<Rightarrow> string list \<Rightarrow> string list \<Rightarrow> string list" where
  "normalizeSegments allowAboveRoot res [] = res"
| "normalizeSegments allowAboveRoot res (s # ss) =
     (if s = [] \<or> s = ''.'' then normalizeSegments allowAboveRoot res ss
      else if s = ''..'' then
        (if res \<noteq> [] \<and> last res \<noteq> ''..''
           then normalizeSegments allowAboveRoot (butlast res) ss
         else if allowAboveRoot
           then normalizeSegments allowAboveRoot (res @ [''..'']) ss
         else normalizeSegments allowAboveRoot res ss)
      else normalizeSegments allowAboveRoot (res @ [s]) ss)"

definition normalizeString :: "string \<Rightarrow> bool \<Rightarrow> string" where
  "normalizeString path allowAboveRoot =
     joinWith ''/'' (normalizeSegments allowAboveRoot [] (splitOn is_slash path))"

definition normalize_path :: "string \<Rightarrow> string" where
  "normalize_path path =
    (if path = [] then ''.''
     else
       let isAbsolute = is_slash (hd path);
           trailingSeparator = is_slash (last path);
           res = normalizeString path (\<not> isAbsolute)
       in if res = [] then (if isAbsolute then ''/'' else if trailingSeparator then ''./'' else ''.'')
          else (if isAbsolute then ''/'' else []) @ res @ (if trailingSeparator then ''/'' else []))"

text \<open>\<^verbatim>\<open>join(a, b)\<close>: the non-empty arguments, joined with \<^verbatim>\<open>/\<close> and normalised.\<close>

definition join :: "string \<Rightarrow> string \<Rightarrow> string" where
  "join a b =
    (let path = filter (\<lambda>arg. arg \<noteq> []) [a, b]
     in if path = [] then ''.'' else normalize_path (joinWith ''/'' path))"

subsection \<open>Numbers in template literals, and base64\<close>

text \<open>
  \<^verbatim>\<open>`${n}`\<close> for a non-negative integer \<open>n\<close> (\<^verbatim>\<open>Date.now()\<close>, \<^verbatim>\<open>stats.size\<close>) is its
  decimal representation without leading zeros.
\<close>

fun show_nat :: "nat \<Rightarrow> string" where
  "show_nat n = (if n < 10 then [char_of (48 + n)]
                 else show_nat (n div 10) @ [char_of (48 + n mod 10)])"

declare show_nat.simps [simp del]

text \<open>Reading a decimal numeral back; used only to show that \<^const>\<open>show_nat\<close> is injective.\<close>

definition read_nat :: "string \<Rightarrow> nat" where
  "read_nat s = foldl (\<lambda>acc c. 10 * acc + ((of_char c :: nat) - 48)) 0 s"

type_synonym byte = "8 word"

definition base64_digit :: "nat \<Rightarrow> char" where
  "base64_digit n =
     ''ABCDEFGHIJKLMNOPQRSTUVWXYZabcdefghijklmnopqrstuvwxyz0123456789+/'' ! n"

text \<open>
  \<^verbatim>\<open>readFile(path, 'base64')\<close> returns the standard base64 text of the file's bytes:
  three bytes become four digits, and a last group of one or two bytes is padded with
  \<^verbatim>\<open>=\<close>.
\<close>

fun base64 :: "byte list \<Rightarrow> string" where
  "base64 (a # b # c # rest) =
     [base64_digit (unat a div 4),
      base64_digit ((unat a mod 4) * 16 + unat b div 16),
      base64_digit ((unat b mod 16) * 4 + unat c div 64),
      base64_digit (unat c mod 64)] @ base64 rest"
| "base64 [a, b] =
     [base64_digit (unat a div 4),
      base64_digit ((unat a mod 4) * 16 + unat b div 16),
      base64_digit ((unat b mod 16) * 4),
      CHR ''='']"
| "base64 [a] =
     [base64_digit (unat a div 4),
      base64_digit ((unat a mod 4) * 16),
      CHR ''='', CHR ''='']"
| "base64 [] = []"

subsection \<open>Results, thrown values and collaborators\<close>

record ArchiveResult =
  archivePath :: string
  archiveFilename :: string
  scriptPath :: string
  scriptFilename :: string

text \<open>
  The fields of \<^verbatim>\<open>ConfigMapResult\<close> carry the prefix \<open>cm_\<close> where the source reuses a
  field name of \<^verbatim>\<open>ArchiveResult\<close> or of the ConfigMap's metadata.
\<close>

record ConfigMapResult =
  cm_namespace :: string
  configMapName :: string
  cm_archivePath :: string
  cm_archiveFilename :: string

text \<open>
  A thrown JavaScript value, as far as the code looks at it: its \<^verbatim>\<open>message\<close> property,
  which may be absent. \<^verbatim>\<open>new Error(msg)\<close> is a thrown value with that message, and
  \<^verbatim>\<open>(error as Error).message ?? 'Unknown error'\<close> reads it back.
\<close>

datatype thrown = Thrown "string option"

text \<open>
  The code throws plain \<^verbatim>\<open>Error\<close> objects; the failure kinds of the specification are
  told apart by their messages: \<^verbatim>\<open>ScriptNotFound\<close> is
  \<^verbatim>\<open>Script file not found at path: <path>\<close>, \<^verbatim>\<open>OutputDirectoryNotFound\<close> is
  \<^verbatim>\<open>Output directory does not exist at path: <path>\<close>, \<^verbatim>\<open>ToolNotInstalled\<close> is
  \<^verbatim>\<open>k6 is not installed. Please install k6 to archive scripts.\<close>,
  \<^verbatim>\<open>ArchiveCreationFailed\<close> is \<^verbatim>\<open>Failed to archive the script: <cause>\<close>,
  \<^verbatim>\<open>ArchiveNotFound\<close> is \<^verbatim>\<open>Archive file not found at path: <path>\<close>,
  \<^verbatim>\<open>ArchiveTooLarge\<close> is
  \<^verbatim>\<open>Archive file is too large to be stored in a configmap (size: <n> bytes)\<close>, and
  \<^verbatim>\<open>RetractFailed\<close> is
  \<^verbatim>\<open>Failed to delete ConfigMap <name> from namespace <namespace>: <cause>\<close>.
\<close>

definition new_Error :: "string \<Rightarrow> thrown" where
  "new_Error msg = Thrown (Some msg)"

fun message_or_unknown :: "thrown \<Rightarrow> string" where
  "message_or_unknown (Thrown None) = ''Unknown error''"
| "message_or_unknown (Thrown (Some m)) = m"

text \<open>The body of the create request: a \<^verbatim>\<open>k8s.V1ConfigMap\<close> object literal.\<close>

record V1ObjectMeta =
  name :: string
  namespace :: string

record V1ConfigMap =
  apiVersion :: string
  kind :: string
  metadata :: V1ObjectMeta
  binaryData :: "(string \<times> string) list"

text \<open>
  What the code can observe of the machine it runs on: \<^verbatim>\<open>existsSync\<close>,
  \<^verbatim>\<open>fs.promises.stat(p).size\<close>, the bytes \<^verbatim>\<open>fs.promises.readFile\<close> reads, and
  \<^verbatim>\<open>Date.now()\<close> (milliseconds since the epoch). \<^verbatim>\<open>stat\<close> and \<^verbatim>\<open>readFile\<close> may
  reject.
\<close>

record world =
  existsSync :: "string \<Rightarrow> bool"
  stat_size :: "string \<Rightarrow> thrown + nat"
  readFile :: "string \<Rightarrow> thrown + byte list"
  date_now :: nat

text \<open>
  The collaborators. \<^verbatim>\<open>execAsync\<close> runs a shell command: it rejects or resolves with
  \<open>(stdout, stderr)\<close>, and leaves the machine in a new state (files written, time
  passed). \<open>makeApiClient\<close> stands for \<^verbatim>\<open>new k8s.KubeConfig()\<close>,
  \<^verbatim>\<open>kc.loadFromDefault()\<close> and \<^verbatim>\<open>kc.makeApiClient(k8s.CoreV1Api)\<close>, which may throw.
  The two API calls reject (\<open>Some\<close>) or resolve (\<open>None\<close>).
\<close>

record collaborators =
  execAsync :: "string \<Rightarrow> world \<Rightarrow> (thrown + string \<times> string) \<times> world"
  makeApiClient :: "thrown option"
  createNamespacedConfigMap :: "string \<Rightarrow> V1ConfigMap \<Rightarrow> thrown option"
  deleteNamespacedConfigMap :: "string \<Rightarrow> string \<Rightarrow> thrown option"

text \<open>Every call the code makes to a collaborator, in program order.\<close>

datatype event =
    ExistsSync string
  | Exec string
  | Stat string
  | ReadFile string
  | MakeApiClient
  | CreateNamespacedConfigMap string V1ConfigMap
  | DeleteNamespacedConfigMap string string
  | Console string

subsection \<open>\<^verbatim>\<open>archiveTest\<close>\<close>

text \<open>
  The \<^verbatim>\<open>try\<close> block of \<^verbatim>\<open>archiveTest\<close>, entered once the three checks have passed.
  It returns what the block returns or throws, the state of the machine after it, and the
  calls it made. \<^verbatim>\<open>outputDirectory ?? '.'\<close> replaces only an absent directory.
\<close>

definition archive_try ::
  "collaborators \<Rightarrow> world \<Rightarrow> string \<Rightarrow> string option
     \<Rightarrow> (thrown + ArchiveResult) \<times> world \<times> event list" where
  "archive_try io w script_path outputDirectory =
    (let scriptName = parse_name script_path;
         sanitizedScriptName = sanitizeText scriptName;
         archiveOutput =
           join (case outputDirectory of None \<Rightarrow> ''.'' | Some d \<Rightarrow> d)
                (''archive-'' @ sanitizedScriptName @ ''-'' @ show_nat (date_now w) @ ''.tar'');
         archiveCommand = ''k6 archive -v -O '' @ archiveOutput @ '' '' @ script_path;
         logged = [Console (''Archiving script with command: '' @ archiveCommand),
                   Exec archiveCommand]
     in case execAsync io archiveCommand w of
          (Inl error, w') \<Rightarrow> (Inl error, w', logged)
        | (Inr (stdout, stderr), w') \<Rightarrow>
            (let checked = logged @
                   [Console (''Standard Output: '' @ stdout),
                    Console (''Standard Error: '' @ stderr),
                    ExistsSync archiveOutput]
             in if \<not> existsSync w' archiveOutput
                then (Inl (new_Error (''Failed to create archive: '' @ stderr)), w', checked)
                else (Inr \<lparr> archivePath = archiveOutput,
                            archiveFilename = basename archiveOutput,
                            scriptPath = script_path,
                            scriptFilename = basename script_path \<rparr>,
                      w',
                      checked @
                        [Console (''Archive created successfully at: '' @ archiveOutput)])))"

text \<open>
  \<^verbatim>\<open>archiveTest(scriptPath, outputDirectory?)\<close>; the first parameter is called
  \<open>script_path\<close> here, \<open>scriptPath\<close> being a field of the result. The guard \<^verbatim>\<open>if (outputDirectory)\<close>
  holds for a directory that is given and is not the empty string. The \<^verbatim>\<open>catch\<close> of the
  last block wraps whatever the block threw.
\<close>

definition archiveTest ::
  "collaborators \<Rightarrow> world \<Rightarrow> string \<Rightarrow> string option
     \<Rightarrow> (thrown + ArchiveResult) \<times> world \<times> event list" where
  "archiveTest io w script_path outputDirectory =
    (if \<not> existsSync w script_path
     then (Inl (new_Error (''Script file not found at path: '' @ script_path)), w,
           [ExistsSync script_path])
     else
       (case (case outputDirectory of
                None \<Rightarrow> (None, [])
              | Some d \<Rightarrow> if d = [] then (None, [])
                          else if \<not> existsSync w d then (Some d, [ExistsSync d])
                          else (None, [ExistsSync d])) of
          (Some d, dirCheck) \<Rightarrow>
            (Inl (new_Error (''Output directory does not exist at path: '' @ d)), w,
             ExistsSync script_path # dirCheck)
        | (None, dirCheck) \<Rightarrow>
            (case execAsync io ''k6 version'' w of
               (Inl error, w1) \<Rightarrow>
                 (Inl (new_Error ''k6 is not installed. Please install k6 to archive scripts.''),
                  w1, ExistsSync script_path # dirCheck @ [Exec ''k6 version''])
             | (Inr probe, w1) \<Rightarrow>
                 (case archive_try io w1 script_path outputDirectory of
                    (Inl error, w2, calls) \<Rightarrow>
                      (Inl (new_Error (''Failed to archive the script: ''
                                        @ message_or_unknown error)),
                       w2, ExistsSync script_path # dirCheck @ [Exec ''k6 version''] @ calls)
                  | (Inr result, w2, calls) \<Rightarrow>
                      (Inr result, w2,
                       ExistsSync script_path # dirCheck @ [Exec ''k6 version''] @ calls)))))"

subsection \<open>\<^verbatim>\<open>createConfigMap\<close> and \<^verbatim>\<open>deleteConfigMap\<close>\<close>

text \<open>
  \<^verbatim>\<open>createConfigMap(archiveResult, namespace)\<close>. The name of the ConfigMap is
  \<^verbatim>\<open>parse(archiveResult.archiveFilename).name\<close>; the source applies no other function to
  it. Errors of \<^verbatim>\<open>stat\<close>, of the client construction, of \<^verbatim>\<open>readFile\<close> and of the API
  call are not caught and reach the caller as they are.
\<close>

definition createConfigMap ::
  "collaborators \<Rightarrow> world \<Rightarrow> ArchiveResult \<Rightarrow> string
     \<Rightarrow> (thrown + ConfigMapResult) \<times> event list" where
  "createConfigMap io w archiveResult ns =
    (if \<not> existsSync w (archivePath archiveResult)
     then (Inl (new_Error (''Archive file not found at path: '' @ archivePath archiveResult)),
           [ExistsSync (archivePath archiveResult)])
     else
       (case stat_size w (archivePath archiveResult) of
          Inl error \<Rightarrow>
            (Inl error, [ExistsSync (archivePath archiveResult), Stat (archivePath archiveResult)])
        | Inr stats_size \<Rightarrow>
            if stats_size > 1024 * 1024
            then (Inl (new_Error (''Archive file is too large to be stored in a configmap (size: ''
                                   @ show_nat stats_size @ '' bytes)'')),
                  [ExistsSync (archivePath archiveResult), Stat (archivePath archiveResult)])
            else
              (let checks = [ExistsSync (archivePath archiveResult),
                             Stat (archivePath archiveResult), MakeApiClient]
               in case makeApiClient io of
                    Some error \<Rightarrow> (Inl error, checks)
                  | None \<Rightarrow>
                      (let resourceName = parse_name (archiveFilename archiveResult)
                       in case readFile w (archivePath archiveResult) of
                            Inl error \<Rightarrow>
                              (Inl error, checks @ [ReadFile (archivePath archiveResult)])
                          | Inr bytes \<Rightarrow>
                              (let fileContent = base64 bytes;
                                   configMap =
                                     \<lparr> apiVersion = ''v1'',
                                       kind = ''ConfigMap'',
                                       metadata = \<lparr> name = resourceName, namespace = ns \<rparr>,
                                       binaryData =
                                         [(archiveFilename archiveResult, fileContent)] \<rparr>;
                                   calls = checks @
                                     [ReadFile (archivePath archiveResult),
                                      CreateNamespacedConfigMap ns configMap]
                               in case createNamespacedConfigMap io ns configMap of
                                    Some error \<Rightarrow> (Inl error, calls)
                                  | None \<Rightarrow>
                                      (Inr \<lparr> cm_namespace = ns,
                                             configMapName = resourceName,
                                             cm_archivePath = archivePath archiveResult,
                                             cm_archiveFilename =
                                               archiveFilename archiveResult \<rparr>,
                                       calls @
                                         [Console (''ConfigMap '' @ resourceName
                                                   @ '' created in namespace '' @ ns)]))))))"

text \<open>
  \<^verbatim>\<open>deleteConfigMap(configMapName, namespace)\<close> (the parameters are called
  \<open>resourceName\<close> and \<open>ns\<close> here, the names of the source being record fields): the client is built outside the
  \<^verbatim>\<open>try\<close>; the one API call is inside it, and its rejection is wrapped.
\<close>

definition deleteConfigMap ::
  "collaborators \<Rightarrow> string \<Rightarrow> string \<Rightarrow> (thrown + unit) \<times> event list" where
  "deleteConfigMap io resourceName ns =
    (case makeApiClient io of
       Some error \<Rightarrow> (Inl error, [MakeApiClient])
     | None \<Rightarrow>
         (case deleteNamespacedConfigMap io resourceName ns of
            None \<Rightarrow>
              (Inr (),
               [MakeApiClient, DeleteNamespacedConfigMap resourceName ns,
                Console (''ConfigMap '' @ resourceName @ '' deleted from namespace '' @ ns)])
          | Some error \<Rightarrow>
              (Inl (new_Error (''Failed to delete ConfigMap '' @ resourceName
                                @ '' from namespace '' @ ns @ '': ''
                                @ message_or_unknown error)),
               [MakeApiClient, DeleteNamespacedConfigMap resourceName ns])))"

subsection \<open>Properties of names and traces\<close>

text \<open>\<open>has_double c s\<close>: the string \<open>s\<close> contains \<open>c\<close> twice in a row.\<close>

fun has_double :: "'a \<Rightarrow> 'a list \<Rightarrow> bool" where
  "has_double c (x # y # zs) = ((x = c \<and> y = c) \<or> has_double c (y # zs))"
| "has_double c xs = False"

definition starts_with_sep :: "string \<Rightarrow> bool" where
  "starts_with_sep s = (case s of [] \<Rightarrow> False | c # _ \<Rightarrow> is_sep c)"

definition ends_with_sep :: "string \<Rightarrow> bool" where
  "ends_with_sep s = starts_with_sep (rev s)"

text \<open>
  A valid cluster resource name in the sense of the specification: only lowercase
  alphanumerics, \<^verbatim>\<open>-\<close> and \<^verbatim>\<open>.\<close>; neither first nor last character is \<^verbatim>\<open>-\<close> or
  \<^verbatim>\<open>.\<close>; no \<^verbatim>\<open>--\<close> and no \<^verbatim>\<open>..\<close>.
\<close>

definition valid_resource_name :: "string \<Rightarrow> bool" where
  "valid_resource_name s \<longleftrightarrow>
     list_all is_name_char s \<and> \<not> starts_with_sep s \<and> \<not> ends_with_sep s \<and>
     \<not> has_double (CHR ''-'') s \<and> \<not> has_double (CHR ''.'') s"

text \<open>An ASCII letter or digit, before lowercasing: \<^verbatim>\<open>[A-Za-z0-9]\<close>.\<close>

definition unit_is_ascii_alnum :: "code_unit \<Rightarrow> bool" where
  "unit_is_ascii_alnum u \<longleftrightarrow> unit_is_alnum u \<or> (65 \<le> u \<and> u \<le> 90)"

text \<open>A code unit whose lowercase form contains a character of \<^verbatim>\<open>[a-z0-9]\<close>.\<close>

definition lowers_to_alnum :: "code_unit \<Rightarrow> bool" where
  "lowers_to_alnum u \<longleftrightarrow> unit_is_ascii_alnum u \<or> u = 0x130 \<or> u = 0x212A"

fun is_create :: "event \<Rightarrow> bool" where
  "is_create (CreateNamespacedConfigMap ns cm) = True"
| "is_create e = False"

fun is_delete :: "event \<Rightarrow> bool" where
  "is_delete (DeleteNamespacedConfigMap n ns) = True"
| "is_delete e = False"

text \<open>
  The value \<^verbatim>\<open>Date.now()\<close> returns inside a call of \<^verbatim>\<open>archiveTest\<close> that starts in
  state \<open>w\<close>: the clock is read after the version probe has finished.
\<close>

definition clock_read :: "collaborators \<Rightarrow> world \<Rightarrow> nat" where
  "clock_read io w = date_now (snd (execAsync io ''k6 version'' w))"

subsection \<open>Concrete machines for the examples\<close>

text \<open>
  A machine on which the sample script, a script named \<^verbatim>\<open>___.js\<close> and the directory
  \<^verbatim>\<open>out\<close> exist, together with three archives: a hand-made \<^verbatim>\<open>My_Archive.tar\<close> of two
  bytes, \<^verbatim>\<open>limit.tar\<close> of exactly 1 MiB and \<^verbatim>\<open>big.tar\<close> of one byte more (the
  contents of the last two are not readable).
\<close>

definition sample_world :: world where
  "sample_world =
     \<lparr> existsSync = (\<lambda>p. p = ''samples/k6_script_sample_2.js'' \<or> p = ''___.js''
                          \<or> p = ''out'' \<or> p = ''My_Archive.tar''
                          \<or> p = ''limit.tar'' \<or> p = ''big.tar''),
       stat_size = (\<lambda>p. if p = ''My_Archive.tar'' then Inr 2
                         else if p = ''limit.tar'' then Inr 1048576
                         else if p = ''big.tar'' then Inr 1048577
                         else Inl (new_Error ''ENOENT: no such file or directory'')),
       readFile = (\<lambda>p. if p = ''My_Archive.tar'' then Inr [0x4d, 0x61]
                        else if p = ''limit.tar'' \<or> p = ''big.tar''
                        then Inl (new_Error ''EACCES: permission denied'')
                        else Inl (new_Error ''ENOENT: no such file or directory'')),
       date_now = 1700000000000 \<rparr>"

text \<open>
  A working \<^verbatim>\<open>k6\<close>: the version probe succeeds; any other command is taken to be
  \<^verbatim>\<open>k6 archive -v -O <out> <script>\<close> and writes the three bytes \<open>content\<close> to
  \<^verbatim>\<open><out>\<close>. Each command takes \<open>ms\<close> milliseconds.
\<close>

definition k6_installed ::
  "nat \<Rightarrow> string \<Rightarrow> world \<Rightarrow> (thrown + string \<times> string) \<times> world" where
  "k6_installed ms cmd w =
     (if cmd = ''k6 version''
      then (Inr (''k6 v0.49.0'', []), w\<lparr> date_now := date_now w + ms \<rparr>)
      else
        (let out = takeWhile (\<lambda>c. c \<noteq> CHR '' '') (drop 17 cmd)
         in (Inr ([], []),
             w\<lparr> existsSync := (existsSync w)(out := True),
                stat_size := (stat_size w)(out := Inr 3),
                readFile := (readFile w)(out := Inr [0x6b, 0x36, 0x0a]),
                date_now := date_now w + ms \<rparr>)))"

definition k6_missing :: "string \<Rightarrow> world \<Rightarrow> (thrown + string \<times> string) \<times> world" where
  "k6_missing cmd w = (Inl (new_Error (''Command failed: '' @ cmd)), w)"

definition sample_io :: "nat \<Rightarrow> collaborators" where
  "sample_io ms =
     \<lparr> execAsync = k6_installed ms,
       makeApiClient = None,
       createNamespacedConfigMap = (\<lambda>ns cm. None),
       deleteNamespacedConfigMap = (\<lambda>n ns. None) \<rparr>"

definition no_k6_io :: collaborators where
  "no_k6_io = (sample_io 0)\<lparr> execAsync := k6_missing \<rparr>"

definition failing_delete_io :: collaborators where
  "failing_delete_io =
     (sample_io 0)\<lparr> deleteNamespacedConfigMap :=
                       (\<lambda>n ns. Some (new_Error ''HTTP-Code: 404'')) \<rparr>"

text \<open>An \<^verbatim>\<open>ArchiveResult\<close> that points at the file \<open>p\<close> in the current directory.\<close>

definition archive_at :: "string \<Rightarrow> ArchiveResult" where
  "archive_at p = \<lparr> archivePath = p, archiveFilename = p,
                    scriptPath = ''x.js'', scriptFilename = ''x.js'' \<rparr>"

section \<open>Verification\<close>

lemmas char_class_defs = is_lower_def is_digit_def is_alnum_def is_sep_def is_name_char_def

subsection \<open>Repeated characters\<close>

lemma has_double_Cons:
  "has_double c (x # xs) \<longleftrightarrow> (xs \<noteq> [] \<and> x = c \<and> hd xs = c) \<or> has_double c xs"
  by (cases xs) auto

lemma has_double_append:
  "has_double c (xs @ ys) \<longleftrightarrow>
     has_double c xs \<or> has_double c ys \<or> (xs \<noteq> [] \<and> ys \<noteq> [] \<and> last xs = c \<and> hd ys = c)"
proof (induction xs)
  case Nil
  show ?case by simp
next
  case (Cons x xs)
  show ?case
  proof (cases "xs = []")
    case True
    then show ?thesis by (auto simp: has_double_Cons)
  next
    case False
    then show ?thesis using Cons by (auto simp: has_double_Cons)
  qed
qed

lemma has_double_rev: "has_double c (rev xs) = has_double c xs"
proof (induction xs)
  case Nil
  show ?case by simp
next
  case (Cons x xs)
  then show ?case
    by (auto simp: has_double_append has_double_Cons hd_rev last_rev)
qed

lemma has_double_iff_infix:
  "has_double c s \<longleftrightarrow> (\<exists>u v. s = u @ [c, c] @ v)"
proof
  assume "has_double c s"
  then show "\<exists>u v. s = u @ [c, c] @ v"
  proof (induction c s rule: has_double.induct)
    case (1 c x y zs)
    show ?case
    proof (cases "x = c \<and> y = c")
      case True
      then have "x # y # zs = [] @ [c, c] @ zs" by simp
      then show ?thesis by blast
    next
      case False
      with 1 obtain u v where "y # zs = u @ [c, c] @ v" by auto
      then have "x # y # zs = (x # u) @ [c, c] @ v" by simp
      then show ?thesis by blast
    qed
  qed simp_all
next
  assume "\<exists>u v. s = u @ [c, c] @ v"
  then obtain u v where "s = u @ [c, c] @ v" by blast
  then show "has_double c s" by (simp add: has_double_append)
qed

lemma has_double_dropWhile: "\<not> has_double c s \<Longrightarrow> \<not> has_double c (dropWhile P s)"
proof -
  assume h: "\<not> has_double c s"
  have "s = takeWhile P s @ dropWhile P s" by simp
  then have "has_double c (dropWhile P s) \<Longrightarrow> has_double c s"
    by (metis has_double_append)
  with h show ?thesis by blast
qed

lemma has_double_strip_ends: "\<not> has_double c s \<Longrightarrow> \<not> has_double c (strip_ends P s)"
  by (simp add: strip_ends_def has_double_rev has_double_dropWhile)

subsection \<open>Collapsing runs\<close>

lemma collapse_Nil_iff [simp]: "collapse c s = [] \<longleftrightarrow> s = []"
  by (induction c s rule: collapse.induct) auto

lemma hd_collapse [simp]: "hd (collapse c s) = hd s"
  by (induction c s rule: collapse.induct) auto

lemma last_collapse [simp]: "last (collapse c s) = last s"
  by (induction c s rule: collapse.induct) auto

lemma set_collapse: "set (collapse c s) \<subseteq> set s"
  by (induction c s rule: collapse.induct) auto

lemma collapse_no_double: "\<not> has_double c (collapse c s)"
  by (induction c s rule: collapse.induct) (auto simp: has_double_Cons)

lemma collapse_keeps_no_double: "\<not> has_double d s \<Longrightarrow> \<not> has_double d (collapse c s)"
  by (induction c s rule: collapse.induct) (auto simp: has_double_Cons)

lemma collapse_id: "\<not> has_double c s \<Longrightarrow> collapse c s = s"
  by (induction c s rule: collapse.induct) auto

subsection \<open>Stripping both ends\<close>

lemma dropWhile_snoc_keep: "\<not> P x \<Longrightarrow> dropWhile P (ys @ [x]) = dropWhile P ys @ [x]"
  by (induction ys) auto

lemma strip_ends_unfold:
  "strip_ends P s =
     (case dropWhile P s of [] \<Rightarrow> [] | x # ts \<Rightarrow> x # rev (dropWhile P (rev ts)))"
proof (cases "dropWhile P s")
  case Nil
  show ?thesis by (simp add: strip_ends_def Nil)
next
  case (Cons x ts)
  have "\<not> P (hd (dropWhile P s))" by (rule hd_dropWhile) (simp add: Cons)
  then have "\<not> P x" by (simp add: Cons)
  then show ?thesis by (simp add: strip_ends_def Cons dropWhile_snoc_keep)
qed

lemma strip_ends_hd: "strip_ends P s \<noteq> [] \<Longrightarrow> \<not> P (hd (strip_ends P s))"
proof (cases "dropWhile P s")
  case Nil
  assume "strip_ends P s \<noteq> []"
  then show ?thesis by (simp add: strip_ends_def Nil)
next
  case (Cons x ts)
  have "\<not> P (hd (dropWhile P s))" by (rule hd_dropWhile) (simp add: Cons)
  then have "\<not> P x" by (simp add: Cons)
  then show ?thesis by (simp add: strip_ends_unfold Cons)
qed

lemma strip_ends_last: "strip_ends P s \<noteq> [] \<Longrightarrow> \<not> P (last (strip_ends P s))"
proof -
  assume ne: "strip_ends P s \<noteq> []"
  let ?t = "dropWhile P (rev (dropWhile P s))"
  from ne have t: "?t \<noteq> []" by (simp add: strip_ends_def)
  then have "\<not> P (hd ?t)" by (rule hd_dropWhile)
  then show ?thesis using t by (simp add: strip_ends_def last_rev)
qed

lemma strip_ends_id:
  "s = [] \<or> (\<not> P (hd s) \<and> \<not> P (last s)) \<Longrightarrow> strip_ends P s = s"
proof (cases s)
  case Nil
  then show ?thesis by (simp add: strip_ends_def)
next
  case (Cons x xs)
  assume "s = [] \<or> (\<not> P (hd s) \<and> \<not> P (last s))"
  with Cons have a: "\<not> P x" and b: "\<not> P (last (x # xs))" by auto
  have "rev (x # xs) \<noteq> []" by simp
  moreover have "hd (rev (x # xs)) = last (x # xs)" by (simp only: hd_rev)
  ultimately have "dropWhile P (rev (x # xs)) = rev (x # xs)"
    using b by (cases "rev (x # xs)") auto
  then show ?thesis using Cons a by (simp add: strip_ends_def)
qed

lemma set_strip_ends: "set (strip_ends P s) \<subseteq> set s"
proof
  fix x assume "x \<in> set (strip_ends P s)"
  then have "x \<in> set (dropWhile P (rev (dropWhile P s)))" by (simp add: strip_ends_def)
  then have "x \<in> set (rev (dropWhile P s))" by (rule set_dropWhileD)
  then have "x \<in> set (dropWhile P s)" by simp
  then show "x \<in> set s" by (rule set_dropWhileD)
qed


subsection \<open>The result of \<^verbatim>\<open>sanitizeText\<close> is a valid name, and valid names are fixed points\<close>

lemma toLower_name_char: "is_name_char c \<Longrightarrow> toLower c = c"
  by (auto simp: toLower_def char_class_defs)

lemma name_char_not_underscore: "is_name_char c \<Longrightarrow> c \<noteq> CHR ''_''"
  by (auto simp: char_class_defs)

lemma name_char_cases: "is_name_char c \<Longrightarrow> \<not> is_sep c \<Longrightarrow> is_alnum c"
  by (simp add: is_name_char_def)

lemma alnum_not_sep: "is_alnum c \<Longrightarrow> \<not> is_sep c"
  by (auto simp: char_class_defs)

lemma starts_with_sep_iff: "starts_with_sep s \<longleftrightarrow> s \<noteq> [] \<and> is_sep (hd s)"
  by (cases s) (simp_all add: starts_with_sep_def)

lemma ends_with_sep_iff: "ends_with_sep s \<longleftrightarrow> s \<noteq> [] \<and> is_sep (last s)"
  by (simp add: ends_with_sep_def starts_with_sep_iff hd_rev)

lemma sanitizeText_chars: "list_all is_name_char (sanitizeText s)"
proof -
  let ?a = "replace_char (\<lambda>c. \<not> is_name_char c) (CHR ''-'')
              (replace_char (\<lambda>c. c = CHR ''_'') (CHR ''-'') (toLowerCase s))"
  have a: "\<forall>c \<in> set ?a. is_name_char c"
    by (auto simp: replace_char_def char_class_defs)
  have "set (sanitizeText s) \<subseteq> set ?a"
    unfolding sanitizeText_def Let_def
    using set_strip_ends set_collapse by (meson subset_trans)
  with a show ?thesis by (auto simp: list_all_iff)
qed

lemma sanitizeText_ends:
  "\<not> starts_with_sep (sanitizeText s) \<and> \<not> ends_with_sep (sanitizeText s)"
  unfolding sanitizeText_def Let_def starts_with_sep_iff ends_with_sep_iff
  using strip_ends_hd [of is_sep] strip_ends_last [of is_sep] by blast

lemma sanitizeText_no_double:
  "\<not> has_double (CHR ''-'') (sanitizeText s) \<and> \<not> has_double (CHR ''.'') (sanitizeText s)"
  unfolding sanitizeText_def Let_def
  by (intro conjI has_double_strip_ends collapse_keeps_no_double collapse_no_double)

lemma sanitizeText_valid: "valid_resource_name (sanitizeText s)"
  by (simp add: valid_resource_name_def sanitizeText_chars sanitizeText_ends
      sanitizeText_no_double)

lemma sanitizeText_fixed_point:
  assumes "valid_resource_name s"
  shows "sanitizeText s = s"
proof -
  from assms have chars: "\<forall>c \<in> set s. is_name_char c"
    and ends: "s = [] \<or> (\<not> is_sep (hd s) \<and> \<not> is_sep (last s))"
    and nd: "\<not> has_double (CHR ''-'') s" "\<not> has_double (CHR ''.'') s"
    by (auto simp: valid_resource_name_def list_all_iff starts_with_sep_iff ends_with_sep_iff)
  have 1: "toLowerCase s = s"
    unfolding toLowerCase_def using chars by (intro map_idI) (simp add: toLower_name_char)
  have 2: "replace_char (\<lambda>c. c = CHR ''_'') (CHR ''-'') s = s"
    unfolding replace_char_def using chars
    by (intro map_idI) (auto dest: name_char_not_underscore)
  have 3: "replace_char (\<lambda>c. \<not> is_name_char c) (CHR ''-'') s = s"
    unfolding replace_char_def using chars by (intro map_idI) simp
  have "s \<noteq> [] \<Longrightarrow> is_name_char (hd s) \<and> is_name_char (last s)"
    using chars by simp
  with ends have "s = [] \<or> (\<not> \<not> is_alnum (hd s) \<and> \<not> \<not> is_alnum (last s))"
    by (auto dest: name_char_cases)
  then have 4: "strip_ends (\<lambda>c. \<not> is_alnum c) s = s" by (rule strip_ends_id)
  have 5: "collapse (CHR ''-'') s = s" using nd(1) by (rule collapse_id)
  have 6: "collapse (CHR ''.'') s = s" using nd(2) by (rule collapse_id)
  have 7: "strip_ends is_sep s = s" using ends by (rule strip_ends_id)
  show ?thesis by (simp add: sanitizeText_def 1 2 3 4 5 6 7)
qed

text \<open>
  Claim C2. For every string \<open>s\<close>, \<^verbatim>\<open>sanitize(sanitize(s))\<close> equals \<^verbatim>\<open>sanitize(s)\<close>:
  the sanitization transform is idempotent. It is a total function, defined on every
  string.
\<close>

theorem sanitizeText_idempotent: "sanitizeText (sanitizeText s) = sanitizeText s"
  by (rule sanitizeText_fixed_point) (rule sanitizeText_valid)

text \<open>
  Claim C3. For every string \<open>s\<close>, \<^verbatim>\<open>sanitize(s)\<close> neither starts nor ends with
  \<^verbatim>\<open>-\<close> or \<^verbatim>\<open>.\<close>, and contains neither the substring \<^verbatim>\<open>--\<close> nor the substring
  \<^verbatim>\<open>..\<close>.
\<close>

theorem sanitizeText_no_edge_or_repeated_separator:
  "(\<forall>t. sanitizeText s \<noteq> CHR ''-'' # t \<and> sanitizeText s \<noteq> CHR ''.'' # t
       \<and> sanitizeText s \<noteq> t @ ''-'' \<and> sanitizeText s \<noteq> t @ ''.'')
   \<and> \<not> (\<exists>u v. sanitizeText s = u @ ''--'' @ v)
   \<and> \<not> (\<exists>u v. sanitizeText s = u @ ''..'' @ v)"
proof -
  have e: "\<not> starts_with_sep (sanitizeText s)" "\<not> ends_with_sep (sanitizeText s)"
    using sanitizeText_ends by auto
  have "\<forall>t. sanitizeText s \<noteq> CHR ''-'' # t \<and> sanitizeText s \<noteq> CHR ''.'' # t
       \<and> sanitizeText s \<noteq> t @ ''-'' \<and> sanitizeText s \<noteq> t @ ''.''"
  proof (intro allI conjI notI)
    fix t assume "sanitizeText s = CHR ''-'' # t"
    then show False using e(1) by (simp add: starts_with_sep_iff is_sep_def)
  next
    fix t assume "sanitizeText s = CHR ''.'' # t"
    then show False using e(1) by (simp add: starts_with_sep_iff is_sep_def)
  next
    fix t assume "sanitizeText s = t @ ''-''"
    then show False using e(2) by (simp add: ends_with_sep_iff is_sep_def)
  next
    fix t assume "sanitizeText s = t @ ''.''"
    then show False using e(2) by (simp add: ends_with_sep_iff is_sep_def)
  qed
  moreover have "\<not> (\<exists>u v. sanitizeText s = u @ ''--'' @ v)"
    using sanitizeText_no_double [of s] by (simp only: has_double_iff_infix) simp
  moreover have "\<not> (\<exists>u v. sanitizeText s = u @ ''..'' @ v)"
    using sanitizeText_no_double [of s] by (simp only: has_double_iff_infix) simp
  ultimately show ?thesis by blast
qed

subsection \<open>Paths\<close>

lemmas path_defs = is_slash_def trimTrailingSlashes_def lastPart_def basename_def
  beforeLastDot_def parse_name_def normalizeString_def normalize_path_def join_def


lemma splitOn_nonempty [simp]: "splitOn P s \<noteq> []"
  by (induction s) (auto split: list.splits)

lemma splitOn_no_sep: "\<forall>c \<in> set f. \<not> P c \<Longrightarrow> splitOn P f = [f]"
  by (induction f) auto

lemma splitOn_append_sep:
  "P c \<Longrightarrow> splitOn P (d @ c # f) = splitOn P d @ splitOn P f"
  by (induction d) (auto split: list.splits)

lemma normalizeSegments_append:
  "normalizeSegments a res (xs @ ys) = normalizeSegments a (normalizeSegments a res xs) ys"
  by (induction a res xs rule: normalizeSegments.induct) auto

lemma joinWith_snoc:
  "joinWith sep (xs @ [f]) = (if xs = [] then f else joinWith sep xs @ sep @ f)"
  by (induction sep xs rule: joinWith.induct) auto

lemma normalizeString_snoc:
  assumes "f \<noteq> []" "f \<noteq> ''.''" "f \<noteq> ''..''"
  shows "\<exists>pre. joinWith ''/'' (normalizeSegments a [] (segs @ [f])) = pre @ f
               \<and> (pre = [] \<or> last pre = CHR ''/'')"
proof -
  let ?st = "normalizeSegments a [] segs"
  have "normalizeSegments a [] (segs @ [f]) = ?st @ [f]"
    using assms by (simp add: normalizeSegments_append)
  then have "joinWith ''/'' (normalizeSegments a [] (segs @ [f]))
      = (if ?st = [] then f else (joinWith ''/'' ?st @ ''/'') @ f)"
    by (simp add: joinWith_snoc)
  then show ?thesis
    by (cases "?st = []") (auto intro: exI [of _ "joinWith ''/'' ?st @ ''/''"] exI [of _ "[]"])
qed

lemma normalize_file_last:
  assumes f: "f \<noteq> []" "f \<noteq> ''.''" "f \<noteq> ''..''" "\<forall>c \<in> set f. \<not> is_slash c"
    and p: "p = f \<or> (\<exists>d. p = d @ CHR ''/'' # f)"
  shows "\<exists>pre. normalize_path p = pre @ f \<and> (pre = [] \<or> last pre = CHR ''/'')"
proof -
  have ne: "p \<noteq> []" using p f(1) by auto
  have lastp: "\<not> is_slash (last p)" using p f(1,4) by auto
  have "\<exists>segs. splitOn is_slash p = segs @ [f]"
  proof -
    from p show ?thesis
    proof
      assume "p = f"
      then have "splitOn is_slash p = [] @ [f]" using f(4) by (simp add: splitOn_no_sep)
      then show ?thesis by blast
    next
      assume "\<exists>d. p = d @ CHR ''/'' # f"
      then obtain d where "p = d @ CHR ''/'' # f" by blast
      then have "splitOn is_slash p = splitOn is_slash d @ [f]"
        using f(4) by (simp add: splitOn_append_sep splitOn_no_sep is_slash_def)
      then show ?thesis by blast
    qed
  qed
  then obtain segs where segs: "splitOn is_slash p = segs @ [f]" by blast
  obtain pre where pre: "normalizeString p (\<not> is_slash (hd p)) = pre @ f"
      "pre = [] \<or> last pre = CHR ''/''"
    using normalizeString_snoc [OF f(1,2,3)] segs unfolding normalizeString_def by metis
  have res: "normalizeString p (\<not> is_slash (hd p)) \<noteq> []" using pre f(1) by simp
  have "normalize_path p = ((if is_slash (hd p) then ''/'' else []) @ pre) @ f"
    using ne lastp res pre(1) by (simp add: normalize_path_def Let_def)
  moreover have "(if is_slash (hd p) then ''/'' else []) @ pre = []
      \<or> last ((if is_slash (hd p) then ''/'' else []) @ pre) = CHR ''/''"
    using pre(2) by auto
  ultimately show ?thesis by blast
qed

lemma join_file_last:
  assumes f: "f \<noteq> []" "f \<noteq> ''.''" "f \<noteq> ''..''" "\<forall>c \<in> set f. \<not> is_slash c"
  shows "\<exists>pre. join d f = pre @ f \<and> (pre = [] \<or> last pre = CHR ''/'')"
proof (cases "d = []")
  case True
  then have "join d f = normalize_path f" using f(1) by (simp add: join_def)
  then show ?thesis using normalize_file_last [OF f, of f] by simp
next
  case False
  then have "join d f = normalize_path (d @ CHR ''/'' # f)" using f(1) by (simp add: join_def)
  then show ?thesis using normalize_file_last [OF f, of "d @ CHR ''/'' # f"] by auto
qed

lemma basename_after_dir:
  assumes "f \<noteq> []" "\<forall>c \<in> set f. \<not> is_slash c" "pre = [] \<or> last pre = CHR ''/''"
  shows "basename (pre @ f) = f"
proof -
  have "\<not> is_slash (last f)" using assms(1,2) by simp
  then have "dropWhile is_slash (rev f @ rev pre) = rev f @ rev pre"
    using assms(1) by (cases f rule: rev_cases) auto
  then have t: "trimTrailingSlashes (pre @ f) = pre @ f"
    by (simp add: trimTrailingSlashes_def)
  have split: "takeWhile (\<lambda>c. \<not> is_slash c) (rev f @ rev pre)
      = rev f @ takeWhile (\<lambda>c. \<not> is_slash c) (rev pre)"
    by (rule takeWhile_append2) (use assms(2) in simp)
  have "takeWhile (\<lambda>c. \<not> is_slash c) (rev pre) = []"
  proof (cases "pre = []")
    case True
    then show ?thesis by simp
  next
    case False
    with assms(3) have "is_slash (hd (rev pre))" by (simp add: hd_rev is_slash_def)
    moreover have "rev pre \<noteq> []" using False by simp
    ultimately show ?thesis by (cases "rev pre") auto
  qed
  with split have "takeWhile (\<lambda>c. \<not> is_slash c) (rev f @ rev pre) = rev f" by simp
  then show ?thesis by (simp add: basename_def t lastPart_def)
qed

lemma basename_join:
  assumes "f \<noteq> []" "f \<noteq> ''.''" "f \<noteq> ''..''" "\<forall>c \<in> set f. \<not> is_slash c"
  shows "basename (join d f) = f"
proof -
  obtain pre where "join d f = pre @ f" "pre = [] \<or> last pre = CHR ''/''"
    using join_file_last [OF assms] by blast
  then show ?thesis using basename_after_dir [OF assms(1,4)] by simp
qed

lemma parse_name_tar:
  assumes "x \<noteq> []" "\<forall>c \<in> set x. \<not> is_slash c"
  shows "parse_name (x @ ''.tar'') = x"
proof -
  obtain c cs where x: "x = c # cs" using assms(1) by (cases x) auto
  have c: "\<not> is_slash c" using assms(2) x by simp
  have t: "trimTrailingSlashes (x @ ''.tar'') = x @ ''.tar''"
    by (simp add: trimTrailingSlashes_def is_slash_def)
  have "\<forall>c \<in> set (rev (x @ ''.tar'')). \<not> is_slash c"
    using assms(2) by (auto simp: is_slash_def)
  then have "takeWhile (\<lambda>c. \<not> is_slash c) (rev (x @ ''.tar'')) = rev (x @ ''.tar'')"
    by (simp only: takeWhile_eq_all_conv)
  then have b: "lastPart (x @ ''.tar'') = x @ ''.tar''"
    by (simp only: lastPart_def rev_rev_ident)
  have s: "beforeLastDot (x @ ''.tar'') = x"
    by (simp add: beforeLastDot_def)
  have nb: "x @ ''.tar'' \<noteq> ''..''" using x by (cases cs) auto
  show ?thesis
    unfolding parse_name_def Let_def
    using c assms(1) nb by (simp add: x [symmetric] t b s) (simp add: x)
qed

subsection \<open>Decimal numerals\<close>

lemma show_nat_small: "n < 10 \<Longrightarrow> show_nat n = [char_of (48 + n)]"
  by (simp add: show_nat.simps)

lemma show_nat_big:
  "\<not> n < 10 \<Longrightarrow> show_nat n = show_nat (n div 10) @ [char_of (48 + n mod 10)]"
  by (subst show_nat.simps) simp

lemma char_eq_char_of_iff: "c = char_of n \<longleftrightarrow> take_bit 8 n = of_char c"
  using char_of_eq_iff [of n c] by (simp only: eq_commute [of c])

lemmas show_nat_eval = show_nat_small show_nat_big char_of_eq_iff char_eq_char_of_iff

lemma read_nat_snoc: "read_nat (s @ [c]) = 10 * read_nat s + ((of_char c :: nat) - 48)"
  by (simp add: read_nat_def)

lemma read_show_nat: "read_nat (show_nat n) = n"
proof (induction n rule: show_nat.induct)
  case (1 n)
  show ?case
  proof (cases "n < 10")
    case True
    then show ?thesis by (simp add: show_nat_small read_nat_def)
  next
    case False
    have "n mod 10 < 10" by simp
    then have d: "(48 + n mod 10) mod 256 = 48 + n mod 10" by simp
    from False 1 have "read_nat (show_nat (n div 10)) = n div 10" by simp
    then show ?thesis using False by (simp add: show_nat_big read_nat_snoc d)
  qed
qed

lemma show_nat_inj: "show_nat a = show_nat b \<Longrightarrow> a = b"
  by (metis read_show_nat)

lemma digit_char: "(k::nat) < 10 \<Longrightarrow> is_digit (char_of (48 + k))"
proof -
  assume k: "k < 10"
  then have "(48 + k) mod 256 = 48 + k" by simp
  then show ?thesis using k by (simp add: is_digit_def)
qed

lemma show_nat_digits: "\<forall>c \<in> set (show_nat n). is_digit c"
proof (induction n rule: show_nat.induct)
  case (1 n)
  show ?case
  proof (cases "n < 10")
    case True
    then show ?thesis by (simp add: show_nat_small digit_char)
  next
    case False
    have "n mod 10 < 10" by simp
    then have "is_digit (char_of (48 + n mod 10))" by (rule digit_char)
    then show ?thesis using False 1 by (simp add: show_nat_big)
  qed
qed

lemma show_nat_nonempty: "show_nat n \<noteq> []"
  by (subst show_nat.simps) simp

lemma digit_is_name_char: "is_digit c \<Longrightarrow> is_name_char c \<and> \<not> is_sep c \<and> \<not> is_slash c"
  by (auto simp: char_class_defs is_slash_def)

lemma name_char_not_slash: "is_name_char c \<Longrightarrow> \<not> is_slash c"
  by (auto simp: char_class_defs is_slash_def)

lemma no_double_if_absent: "c \<notin> set s \<Longrightarrow> \<not> has_double c s"
  by (induction c s rule: has_double.induct) auto

subsection \<open>The archive file name\<close>

lemma archive_name_no_slash:
  "\<forall>c \<in> set (''archive-'' @ sanitizeText n @ ''-'' @ show_nat t @ ''.tar''). \<not> is_slash c"
proof -
  have a: "\<forall>c \<in> set (sanitizeText n). \<not> is_slash c"
    using sanitizeText_chars [of n] by (auto simp: list_all_iff dest: name_char_not_slash)
  have b: "\<forall>c \<in> set (show_nat t). \<not> is_slash c"
    using show_nat_digits [of t] by (auto dest: digit_is_name_char)
  show ?thesis using a b by (auto simp: is_slash_def)
qed

lemma archive_stem_no_slash:
  "\<forall>c \<in> set (''archive-'' @ sanitizeText n @ ''-'' @ show_nat t). \<not> is_slash c"
  using archive_name_no_slash [of n t] by auto

lemma basename_join_archive_name:
  "basename (join d (''archive-'' @ sanitizeText n @ ''-'' @ show_nat t @ ''.tar''))
     = ''archive-'' @ sanitizeText n @ ''-'' @ show_nat t @ ''.tar''"
  by (rule basename_join) (simp_all add: archive_name_no_slash)

lemma parse_name_archive_name:
  "parse_name (''archive-'' @ sanitizeText n @ ''-'' @ show_nat t @ ''.tar'')
     = ''archive-'' @ sanitizeText n @ ''-'' @ show_nat t"
proof -
  have "parse_name ((''archive-'' @ sanitizeText n @ ''-'' @ show_nat t) @ ''.tar'')
     = ''archive-'' @ sanitizeText n @ ''-'' @ show_nat t"
    by (rule parse_name_tar) (simp_all add: archive_stem_no_slash)
  then show ?thesis by simp
qed

lemma archive_stem_valid:
  assumes "sanitizeText n \<noteq> []"
  shows "valid_resource_name (''archive-'' @ sanitizeText n @ ''-'' @ show_nat t)"
proof -
  let ?x = "sanitizeText n" and ?d = "show_nat t"
  have x: "list_all is_name_char ?x" "\<not> is_sep (hd ?x)" "\<not> is_sep (last ?x)"
      "\<not> has_double (CHR ''-'') ?x" "\<not> has_double (CHR ''.'') ?x"
    using sanitizeText_chars [of n] sanitizeText_ends [of n] sanitizeText_no_double [of n] assms
    by (auto simp: starts_with_sep_iff ends_with_sep_iff)
  have d: "\<forall>c \<in> set ?d. is_digit c" "?d \<noteq> []"
    by (rule show_nat_digits) (rule show_nat_nonempty)
  then have dh: "is_digit (hd ?d)" "is_digit (last ?d)" by simp_all
  have dn: "CHR ''-'' \<notin> set ?d" "CHR ''.'' \<notin> set ?d"
    using d(1) by (auto simp: is_digit_def)
  have chars: "list_all is_name_char (''archive-'' @ ?x @ ''-'' @ ?d)"
    using x(1) d(1) by (auto simp: list_all_iff char_class_defs)
  have st: "\<not> starts_with_sep (''archive-'' @ ?x @ ''-'' @ ?d)"
    by (simp add: starts_with_sep_def is_sep_def)
  have en: "\<not> ends_with_sep (''archive-'' @ ?x @ ''-'' @ ?d)"
    using d(2) dh(2) by (auto simp: ends_with_sep_iff dest: digit_is_name_char)
  have h: "\<not> has_double (CHR ''-'') (''archive-'' @ ?x @ ''-'' @ ?d)"
    using x(2,3,4) assms d(2) dh(1) no_double_if_absent [OF dn(1)]
    by (auto simp: has_double_append has_double_Cons hd_append is_sep_def is_digit_def)
  have p: "\<not> has_double (CHR ''.'') (''archive-'' @ ?x @ ''-'' @ ?d)"
    using x(2,3,5) assms d(2) dh(1) no_double_if_absent [OF dn(2)]
    by (auto simp: has_double_append has_double_Cons hd_append is_sep_def is_digit_def)
  show ?thesis using chars st en h p by (simp add: valid_resource_name_def)
qed

lemmas sanitize_eval = sanitizeText_def toLowerCase_def toLower_def replace_char_def
  strip_ends_def char_class_defs char_of_eq_iff

lemmas model_eval = archiveTest_def archive_try_def createConfigMap_def deleteConfigMap_def
  sample_world_def sample_io_def k6_installed_def k6_missing_def no_k6_io_def
  failing_delete_io_def new_Error_def clock_read_def Let_def base64_digit_def

subsection \<open>archiveTest\<close>

lemma archiveTest_success:
  assumes "fst (archiveTest io w script_path outputDirectory) = Inr result"
  shows "archivePath result =
           join (case outputDirectory of None \<Rightarrow> ''.'' | Some d \<Rightarrow> d)
                (''archive-'' @ sanitizeText (parse_name script_path) @ ''-''
                   @ show_nat (clock_read io w) @ ''.tar'')"
    and "archiveFilename result = basename (archivePath result)"
    and "existsSync (fst (snd (archiveTest io w script_path outputDirectory)))
           (archivePath result)"
  using assms
  by (auto simp: archiveTest_def archive_try_def clock_read_def Let_def
           split: if_splits option.splits prod.splits sum.splits)


text \<open>
  Claim C4. Every successful call \<^verbatim>\<open>archive(scriptPath, outputDirectory?)\<close> returns a
  result whose \<^verbatim>\<open>archivePath\<close> is the output directory (the current directory \<^verbatim>\<open>.\<close>
  when none was given) joined with
  \<^verbatim>\<open>archive-\<close> + \<^verbatim>\<open>sanitize\<close>(base name of the script without extension) + \<^verbatim>\<open>-\<close>
  + epoch milliseconds + \<^verbatim>\<open>.tar\<close>, whose \<^verbatim>\<open>archiveFilename\<close> is the base name of
  \<^verbatim>\<open>archivePath\<close>, and the file at \<^verbatim>\<open>archivePath\<close> exists in the state in which the
  call returns.
\<close>

theorem archiveTest_result_path_and_file:
  assumes "fst (archiveTest io w script_path outputDirectory) = Inr result"
  shows "archivePath result =
           join (case outputDirectory of None \<Rightarrow> ''.'' | Some d \<Rightarrow> d)
                (''archive-'' @ sanitizeText (parse_name script_path) @ ''-''
                   @ show_nat (clock_read io w) @ ''.tar'')
       \<and> archiveFilename result = basename (archivePath result)
       \<and> existsSync (fst (snd (archiveTest io w script_path outputDirectory)))
            (archivePath result)"
  using archiveTest_success [OF assms] by simp

theorem archiveTest_result_path_and_file_witness:
  "fst (archiveTest (sample_io 250) sample_world ''samples/k6_script_sample_2.js'' (Some ''out''))
     = Inr \<lparr> archivePath = ''out/archive-k6-script-sample-2-1700000000250.tar'',
             archiveFilename = ''archive-k6-script-sample-2-1700000000250.tar'',
             scriptPath = ''samples/k6_script_sample_2.js'',
             scriptFilename = ''k6_script_sample_2.js'' \<rparr>
   \<and> ''out/archive-k6-script-sample-2-1700000000250.tar''
       = join ''out'' (''archive-'' @ sanitizeText (parse_name ''samples/k6_script_sample_2.js'')
                        @ ''-'' @ show_nat (clock_read (sample_io 250) sample_world) @ ''.tar'')
   \<and> existsSync (fst (snd (archiveTest (sample_io 250) sample_world
                                ''samples/k6_script_sample_2.js'' (Some ''out''))))
        ''out/archive-k6-script-sample-2-1700000000250.tar''"
proof -
  let ?r = "\<lparr> archivePath = ''out/archive-k6-script-sample-2-1700000000250.tar'',
             archiveFilename = ''archive-k6-script-sample-2-1700000000250.tar'',
             scriptPath = ''samples/k6_script_sample_2.js'',
             scriptFilename = ''k6_script_sample_2.js'' \<rparr>"
  have run: "fst (archiveTest (sample_io 250) sample_world ''samples/k6_script_sample_2.js''
                    (Some ''out'')) = Inr ?r"
    by (simp add: model_eval path_defs sanitize_eval show_nat_eval)
  note t = archiveTest_result_path_and_file [OF run]
  have p: "''out/archive-k6-script-sample-2-1700000000250.tar''
       = join ''out'' (''archive-'' @ sanitizeText (parse_name ''samples/k6_script_sample_2.js'')
                        @ ''-'' @ show_nat (clock_read (sample_io 250) sample_world) @ ''.tar'')"
    using t [THEN conjunct1] by simp
  have e: "existsSync (fst (snd (archiveTest (sample_io 250) sample_world
                                ''samples/k6_script_sample_2.js'' (Some ''out''))))
        ''out/archive-k6-script-sample-2-1700000000250.tar''"
    using t [THEN conjunct2, THEN conjunct2] by simp
  from run p e show ?thesis by blast
qed

subsection \<open>The checks of archiveTest\<close>

text \<open>
  Claim C5, as stated: \<^verbatim>\<open>archive\<close> fails with \<^verbatim>\<open>OutputDirectoryNotFound\<close> whenever an
  output directory is supplied that does not exist. The empty string is a supplied
  directory that does not exist, yet the guard \<^verbatim>\<open>if (outputDirectory)\<close> skips the check
  for it and the call goes on to archive into the current directory.
\<close>

theorem archiveTest_empty_output_directory_counterexample:
  "existsSync sample_world ''samples/k6_script_sample_2.js''
   \<and> \<not> existsSync sample_world ''''
   \<and> fst (archiveTest (sample_io 250) sample_world ''samples/k6_script_sample_2.js'' (Some ''''))
       \<noteq> Inl (new_Error (''Output directory does not exist at path: '' @ ''''))
   \<and> fst (archiveTest (sample_io 250) sample_world ''samples/k6_script_sample_2.js'' (Some ''''))
       = Inr \<lparr> archivePath = ''archive-k6-script-sample-2-1700000000250.tar'',
               archiveFilename = ''archive-k6-script-sample-2-1700000000250.tar'',
               scriptPath = ''samples/k6_script_sample_2.js'',
               scriptFilename = ''k6_script_sample_2.js'' \<rparr>"
  by (simp add: model_eval path_defs sanitize_eval show_nat_eval)

text \<open>
  Claim C5, amended. \<^verbatim>\<open>archive\<close> checks its preconditions in order, each with its own
  failure, before the archive subprocess is spawned or any file is written:
  if the script does not exist it fails with \<^verbatim>\<open>ScriptNotFound\<close>, having only looked for
  the script; otherwise, if a non-empty output directory is supplied that does not exist,
  it fails with \<^verbatim>\<open>OutputDirectoryNotFound\<close>, having only looked for the script and the
  directory; otherwise, if the version probe fails, it fails with \<^verbatim>\<open>ToolNotInstalled\<close>,
  the probe being the only subprocess it ran. The three failures are pairwise different,
  and in the first two the state of the machine is unchanged.
\<close>

theorem archiveTest_preconditions_in_order:
  "(\<not> existsSync w script_path \<longrightarrow>
      archiveTest io w script_path outputDirectory =
        (Inl (new_Error (''Script file not found at path: '' @ script_path)), w,
         [ExistsSync script_path]))
   \<and> (existsSync w script_path \<and> outputDirectory = Some d \<and> d \<noteq> [] \<and> \<not> existsSync w d \<longrightarrow>
      archiveTest io w script_path outputDirectory =
        (Inl (new_Error (''Output directory does not exist at path: '' @ d)), w,
         [ExistsSync script_path, ExistsSync d]))
   \<and> (existsSync w script_path
        \<and> (\<forall>d'. outputDirectory = Some d' \<and> d' \<noteq> [] \<longrightarrow> existsSync w d')
        \<and> fst (execAsync io ''k6 version'' w) = Inl e \<longrightarrow>
      archiveTest io w script_path outputDirectory =
        (Inl (new_Error ''k6 is not installed. Please install k6 to archive scripts.''),
         snd (execAsync io ''k6 version'' w),
         ExistsSync script_path #
           (case outputDirectory of None \<Rightarrow> []
            | Some d' \<Rightarrow> if d' = [] then [] else [ExistsSync d'])
           @ [Exec ''k6 version'']))
   \<and> new_Error (''Script file not found at path: '' @ script_path)
         \<noteq> new_Error (''Output directory does not exist at path: '' @ d)
   \<and> new_Error (''Script file not found at path: '' @ script_path)
         \<noteq> new_Error ''k6 is not installed. Please install k6 to archive scripts.''
   \<and> new_Error (''Output directory does not exist at path: '' @ d)
         \<noteq> new_Error ''k6 is not installed. Please install k6 to archive scripts.''"
proof (intro conjI impI)
  assume "\<not> existsSync w script_path"
  then show "archiveTest io w script_path outputDirectory =
        (Inl (new_Error (''Script file not found at path: '' @ script_path)), w,
         [ExistsSync script_path])"
    by (simp add: archiveTest_def)
next
  assume "existsSync w script_path \<and> outputDirectory = Some d \<and> d \<noteq> [] \<and> \<not> existsSync w d"
  then show "archiveTest io w script_path outputDirectory =
        (Inl (new_Error (''Output directory does not exist at path: '' @ d)), w,
         [ExistsSync script_path, ExistsSync d])"
    by (simp add: archiveTest_def)
next
  assume a: "existsSync w script_path
        \<and> (\<forall>d'. outputDirectory = Some d' \<and> d' \<noteq> [] \<longrightarrow> existsSync w d')
        \<and> fst (execAsync io ''k6 version'' w) = Inl e"
  obtain r w1 where p: "execAsync io ''k6 version'' w = (r, w1)" by (cases "execAsync io ''k6 version'' w")
  with a have r: "r = Inl e" by simp
  show "archiveTest io w script_path outputDirectory =
        (Inl (new_Error ''k6 is not installed. Please install k6 to archive scripts.''),
         snd (execAsync io ''k6 version'' w),
         ExistsSync script_path #
           (case outputDirectory of None \<Rightarrow> []
            | Some d' \<Rightarrow> if d' = [] then [] else [ExistsSync d'])
           @ [Exec ''k6 version''])"
    using a by (cases outputDirectory) (simp_all add: archiveTest_def p r)
qed (simp_all add: new_Error_def)

theorem archiveTest_preconditions_in_order_witness:
  "\<not> existsSync sample_world ''./non_existent_script.js''
   \<and> archiveTest (sample_io 250) sample_world ''./non_existent_script.js'' None =
       (Inl (new_Error ''Script file not found at path: ./non_existent_script.js''),
        sample_world, [ExistsSync ''./non_existent_script.js''])
   \<and> existsSync sample_world ''___.js'' \<and> \<not> existsSync sample_world ''./fake-output''
   \<and> archiveTest (sample_io 250) sample_world ''___.js'' (Some ''./fake-output'') =
       (Inl (new_Error ''Output directory does not exist at path: ./fake-output''),
        sample_world, [ExistsSync ''___.js'', ExistsSync ''./fake-output''])
   \<and> existsSync sample_world ''out''
   \<and> fst (execAsync no_k6_io ''k6 version'' sample_world)
        = Inl (new_Error ''Command failed: k6 version'')
   \<and> archiveTest no_k6_io sample_world ''___.js'' (Some ''out'') =
       (Inl (new_Error ''k6 is not installed. Please install k6 to archive scripts.''),
        sample_world, [ExistsSync ''___.js'', ExistsSync ''out'', Exec ''k6 version''])"
proof -
  have h1: "\<not> existsSync sample_world ''./non_existent_script.js''"
    by (simp add: sample_world_def)
  have h2: "existsSync sample_world ''___.js'' \<and> Some ''./fake-output'' = Some ''./fake-output''
      \<and> ''./fake-output'' \<noteq> [] \<and> \<not> existsSync sample_world ''./fake-output''"
    by (simp add: sample_world_def)
  have h3: "existsSync sample_world ''___.js''
      \<and> (\<forall>d'. Some ''out'' = Some d' \<and> d' \<noteq> [] \<longrightarrow> existsSync sample_world d')
      \<and> fst (execAsync no_k6_io ''k6 version'' sample_world)
           = Inl (new_Error ''Command failed: k6 version'')"
    by (simp add: sample_world_def no_k6_io_def sample_io_def k6_missing_def)
  have s3: "snd (execAsync no_k6_io ''k6 version'' sample_world) = sample_world"
    by (simp add: no_k6_io_def sample_io_def k6_missing_def)
  have c1: "archiveTest (sample_io 250) sample_world ''./non_existent_script.js'' None =
       (Inl (new_Error ''Script file not found at path: ./non_existent_script.js''),
        sample_world, [ExistsSync ''./non_existent_script.js''])"
    using archiveTest_preconditions_in_order
      [of sample_world "''./non_existent_script.js''" "sample_io 250" None, THEN conjunct1] h1
    by simp
  have c2: "archiveTest (sample_io 250) sample_world ''___.js'' (Some ''./fake-output'') =
       (Inl (new_Error ''Output directory does not exist at path: ./fake-output''),
        sample_world, [ExistsSync ''___.js'', ExistsSync ''./fake-output''])"
    using archiveTest_preconditions_in_order
      [of sample_world "''___.js''" "sample_io 250" "Some ''./fake-output''" "''./fake-output''",
       THEN conjunct2, THEN conjunct1] h2
    by simp
  have c3: "archiveTest no_k6_io sample_world ''___.js'' (Some ''out'') =
       (Inl (new_Error ''k6 is not installed. Please install k6 to archive scripts.''),
        sample_world, [ExistsSync ''___.js'', ExistsSync ''out'', Exec ''k6 version''])"
    using archiveTest_preconditions_in_order
      [of sample_world "''___.js''" no_k6_io "Some ''out''" _
          "new_Error ''Command failed: k6 version''",
       THEN conjunct2, THEN conjunct2, THEN conjunct1] h3 s3
    by simp
  from h1 h2 h3 c1 c2 c3 show ?thesis by blast
qed

subsection \<open>createConfigMap\<close>

text \<open>
  Claim C6. \<^verbatim>\<open>publish\<close> fails before any cluster API call when a precondition fails: if
  the archive file does not exist it fails with \<^verbatim>\<open>ArchiveNotFound\<close>; otherwise, if the
  size of the archive exceeds 1 MiB (1048576 bytes) it fails with \<^verbatim>\<open>ArchiveTooLarge\<close>;
  in both cases no create request is submitted (the trace ends with the failed check).
  A size of at most 1048576 bytes passes the size check: the call goes on to build the API
  client.
\<close>

theorem createConfigMap_fails_fast:
  "(\<not> existsSync w (archivePath archiveResult) \<longrightarrow>
      createConfigMap io w archiveResult ns =
        (Inl (new_Error (''Archive file not found at path: '' @ archivePath archiveResult)),
         [ExistsSync (archivePath archiveResult)]))
   \<and> (existsSync w (archivePath archiveResult)
        \<and> stat_size w (archivePath archiveResult) = Inr n \<and> n > 1048576 \<longrightarrow>
      createConfigMap io w archiveResult ns =
        (Inl (new_Error (''Archive file is too large to be stored in a configmap (size: ''
                          @ show_nat n @ '' bytes)'')),
         [ExistsSync (archivePath archiveResult), Stat (archivePath archiveResult)]))
   \<and> (existsSync w (archivePath archiveResult)
        \<and> stat_size w (archivePath archiveResult) = Inr n \<and> n \<le> 1048576 \<longrightarrow>
      take 3 (snd (createConfigMap io w archiveResult ns)) =
        [ExistsSync (archivePath archiveResult), Stat (archivePath archiveResult),
         MakeApiClient])"
  by (auto simp: createConfigMap_def Let_def split: option.splits sum.splits)

theorem createConfigMap_fails_fast_witness:
  "\<not> existsSync sample_world ''gone.tar''
   \<and> createConfigMap (sample_io 0) sample_world (archive_at ''gone.tar'') ''default'' =
       (Inl (new_Error ''Archive file not found at path: gone.tar''), [ExistsSync ''gone.tar''])
   \<and> existsSync sample_world ''big.tar'' \<and> stat_size sample_world ''big.tar'' = Inr 1048577
   \<and> createConfigMap (sample_io 0) sample_world (archive_at ''big.tar'') ''default'' =
       (Inl (new_Error
          ''Archive file is too large to be stored in a configmap (size: 1048577 bytes)''),
        [ExistsSync ''big.tar'', Stat ''big.tar''])
   \<and> existsSync sample_world ''limit.tar'' \<and> stat_size sample_world ''limit.tar'' = Inr 1048576
   \<and> take 3 (snd (createConfigMap (sample_io 0) sample_world (archive_at ''limit.tar'')
                     ''default''))
       = [ExistsSync ''limit.tar'', Stat ''limit.tar'', MakeApiClient]"
proof -
  have p: "archivePath (archive_at ''gone.tar'') = ''gone.tar''"
      "archivePath (archive_at ''big.tar'') = ''big.tar''"
      "archivePath (archive_at ''limit.tar'') = ''limit.tar''"
    by (simp_all add: archive_at_def)
  have h1: "\<not> existsSync sample_world ''gone.tar''" by (simp add: sample_world_def)
  have h2: "existsSync sample_world ''big.tar'' \<and> stat_size sample_world ''big.tar'' = Inr 1048577
      \<and> (1048577::nat) > 1048576"
    by (simp add: sample_world_def)
  have h3: "existsSync sample_world ''limit.tar''
      \<and> stat_size sample_world ''limit.tar'' = Inr 1048576 \<and> (1048576::nat) \<le> 1048576"
    by (simp add: sample_world_def)
  have sz: "show_nat 1048577 = ''1048577''" by (simp add: show_nat_eval)
  have c1: "createConfigMap (sample_io 0) sample_world (archive_at ''gone.tar'') ''default'' =
       (Inl (new_Error ''Archive file not found at path: gone.tar''), [ExistsSync ''gone.tar''])"
    using createConfigMap_fails_fast
      [of sample_world "archive_at ''gone.tar''" "sample_io 0" "''default''", THEN conjunct1] h1
    by (simp add: p)
  have c2: "createConfigMap (sample_io 0) sample_world (archive_at ''big.tar'') ''default'' =
       (Inl (new_Error
          ''Archive file is too large to be stored in a configmap (size: 1048577 bytes)''),
        [ExistsSync ''big.tar'', Stat ''big.tar''])"
    using createConfigMap_fails_fast
      [of sample_world "archive_at ''big.tar''" "sample_io 0" "''default''" 1048577,
       THEN conjunct2, THEN conjunct1] h2
    by (simp add: p sz)
  have c3: "take 3 (snd (createConfigMap (sample_io 0) sample_world (archive_at ''limit.tar'')
                     ''default''))
       = [ExistsSync ''limit.tar'', Stat ''limit.tar'', MakeApiClient]"
    using createConfigMap_fails_fast
      [of sample_world "archive_at ''limit.tar''" "sample_io 0" "''default''" 1048576,
       THEN conjunct2, THEN conjunct2] h3
    by (simp add: p)
  from h1 h2 h3 c1 c2 c3 show ?thesis by blast
qed

text \<open>
  Claim C7. On every successful \<^verbatim>\<open>publish\<close>, the one create request submitted to the
  cluster API is for the namespace given as argument and carries the body
  \<^verbatim>\<open>{apiVersion: "v1", kind: "ConfigMap", metadata: {name: configMapName, namespace},
  binaryData: {...}}\<close>, whose \<^verbatim>\<open>binaryData\<close> has exactly one entry: the archive filename
  as key and the base64 encoding of the whole contents of the archive file as value.
\<close>

theorem createConfigMap_request_body:
  assumes "fst (createConfigMap io w archiveResult ns) = Inr result"
  shows "\<exists>bytes. readFile w (archivePath archiveResult) = Inr bytes
           \<and> filter is_create (snd (createConfigMap io w archiveResult ns)) =
               [CreateNamespacedConfigMap ns
                  \<lparr> apiVersion = ''v1'', kind = ''ConfigMap'',
                    metadata = \<lparr> name = configMapName result, namespace = ns \<rparr>,
                    binaryData = [(archiveFilename archiveResult, base64 bytes)] \<rparr>]"
  using assms
  by (auto simp: createConfigMap_def Let_def split: if_splits option.splits sum.splits)

theorem createConfigMap_request_body_witness:
  "fst (createConfigMap (sample_io 0) sample_world (archive_at ''My_Archive.tar'') ''default'')
     = Inr \<lparr> cm_namespace = ''default'', configMapName = ''My_Archive'',
             cm_archivePath = ''My_Archive.tar'', cm_archiveFilename = ''My_Archive.tar'' \<rparr>
   \<and> readFile sample_world ''My_Archive.tar'' = Inr [0x4d, 0x61]
   \<and> filter is_create
        (snd (createConfigMap (sample_io 0) sample_world (archive_at ''My_Archive.tar'')
                ''default''))
      = [CreateNamespacedConfigMap ''default''
           \<lparr> apiVersion = ''v1'', kind = ''ConfigMap'',
             metadata = \<lparr> name = ''My_Archive'', namespace = ''default'' \<rparr>,
             binaryData = [(''My_Archive.tar'', ''TWE='')] \<rparr>]"
proof -
  have run: "fst (createConfigMap (sample_io 0) sample_world (archive_at ''My_Archive.tar'')
                    ''default'')
     = Inr \<lparr> cm_namespace = ''default'', configMapName = ''My_Archive'',
             cm_archivePath = ''My_Archive.tar'', cm_archiveFilename = ''My_Archive.tar'' \<rparr>"
    by (simp add: model_eval archive_at_def path_defs)
  have rd: "readFile sample_world ''My_Archive.tar'' = Inr [0x4d, 0x61]"
    by (simp add: sample_world_def)
  have "filter is_create
        (snd (createConfigMap (sample_io 0) sample_world (archive_at ''My_Archive.tar'')
                ''default''))
      = [CreateNamespacedConfigMap ''default''
           \<lparr> apiVersion = ''v1'', kind = ''ConfigMap'',
             metadata = \<lparr> name = ''My_Archive'', namespace = ''default'' \<rparr>,
             binaryData = [(''My_Archive.tar'', ''TWE='')] \<rparr>]"
    using createConfigMap_request_body [OF run] rd
    by (auto simp: archive_at_def base64_digit_def)
  with run rd show ?thesis by blast
qed

subsection \<open>deleteConfigMap\<close>

text \<open>
  Claim C9. \<^verbatim>\<open>retract\<close> (\<^verbatim>\<open>deleteConfigMap\<close>) makes a single delete attempt for the given
  name and namespace, with no retry: the trace never holds more than one delete call, and
  holds exactly that one once the API client has been built. If the call is rejected, the
  operation fails with \<^verbatim>\<open>RetractFailed\<close>, an error whose message wraps the message of
  the underlying error (\<^verbatim>\<open>Unknown error\<close> when it has none); if the call succeeds, the
  operation returns nothing.
\<close>

theorem deleteConfigMap_single_attempt:
  "length (filter is_delete (snd (deleteConfigMap io resourceName ns))) \<le> 1
   \<and> (makeApiClient io = None \<longrightarrow>
        filter is_delete (snd (deleteConfigMap io resourceName ns))
          = [DeleteNamespacedConfigMap resourceName ns])
   \<and> (makeApiClient io = None \<and> deleteNamespacedConfigMap io resourceName ns = Some error \<longrightarrow>
        fst (deleteConfigMap io resourceName ns) =
          Inl (new_Error (''Failed to delete ConfigMap '' @ resourceName
                           @ '' from namespace '' @ ns @ '': '' @ message_or_unknown error)))
   \<and> (makeApiClient io = None \<and> deleteNamespacedConfigMap io resourceName ns = None \<longrightarrow>
        fst (deleteConfigMap io resourceName ns) = Inr ())"
  by (auto simp: deleteConfigMap_def split: option.splits)

theorem deleteConfigMap_single_attempt_witness:
  "makeApiClient failing_delete_io = None
   \<and> deleteNamespacedConfigMap failing_delete_io ''archive-sample-1'' ''default''
       = Some (new_Error ''HTTP-Code: 404'')
   \<and> filter is_delete (snd (deleteConfigMap failing_delete_io ''archive-sample-1'' ''default''))
       = [DeleteNamespacedConfigMap ''archive-sample-1'' ''default'']
   \<and> fst (deleteConfigMap failing_delete_io ''archive-sample-1'' ''default'')
       = Inl (new_Error
           ''Failed to delete ConfigMap archive-sample-1 from namespace default: HTTP-Code: 404'')
   \<and> makeApiClient (sample_io 0) = None
   \<and> deleteNamespacedConfigMap (sample_io 0) ''archive-sample-1'' ''default'' = None
   \<and> fst (deleteConfigMap (sample_io 0) ''archive-sample-1'' ''default'') = Inr ()"
proof -
  have h1: "makeApiClient failing_delete_io = None"
    and h2: "deleteNamespacedConfigMap failing_delete_io ''archive-sample-1'' ''default''
       = Some (new_Error ''HTTP-Code: 404'')"
    and h3: "makeApiClient (sample_io 0) = None"
    and h4: "deleteNamespacedConfigMap (sample_io 0) ''archive-sample-1'' ''default'' = None"
    by (simp_all add: failing_delete_io_def sample_io_def)
  note t1 = deleteConfigMap_single_attempt
    [of failing_delete_io "''archive-sample-1''" "''default''" "new_Error ''HTTP-Code: 404''"]
  note t2 = deleteConfigMap_single_attempt
    [of "sample_io 0" "''archive-sample-1''" "''default''"]
  have c1: "filter is_delete
        (snd (deleteConfigMap failing_delete_io ''archive-sample-1'' ''default''))
       = [DeleteNamespacedConfigMap ''archive-sample-1'' ''default'']"
    using t1 [THEN conjunct2, THEN conjunct1] h1 by simp
  have c2: "fst (deleteConfigMap failing_delete_io ''archive-sample-1'' ''default'')
       = Inl (new_Error
           ''Failed to delete ConfigMap archive-sample-1 from namespace default: HTTP-Code: 404'')"
    using t1 [THEN conjunct2, THEN conjunct2, THEN conjunct1] h1 h2
    by (simp add: new_Error_def)
  have c3: "fst (deleteConfigMap (sample_io 0) ''archive-sample-1'' ''default'') = Inr ()"
    using t2 [THEN conjunct2, THEN conjunct2, THEN conjunct2] h3 h4 by simp
  from h1 h2 h3 h4 c1 c2 c3 show ?thesis by blast
qed

subsection \<open>The sanitizer on UTF-16 code units\<close>

lemmas unit_class_defs = unit_is_alnum_def unit_is_sep_def unit_is_name_char_def

lemmas utf16_eval = sanitizeText_utf16_def toLowerCase_utf16_def lower_unit_def
  replace_char_def strip_ends_def unit_class_defs units_def

lemma lower_unit_alnum:
  "\<exists>v \<in> set (lower_unit u). unit_is_alnum v \<Longrightarrow> lowers_to_alnum u"
  by (auto simp: lower_unit_def lowers_to_alnum_def unit_is_ascii_alnum_def unit_is_alnum_def split: if_splits)

lemma lowers_to_alnum_lower_unit:
  "lowers_to_alnum u \<Longrightarrow> \<exists>v \<in> set (lower_unit u). unit_is_alnum v"
  by (auto simp: lower_unit_def lowers_to_alnum_def unit_is_ascii_alnum_def unit_is_alnum_def)

lemma strip_ends_Nil_iff: "strip_ends P s = [] \<longleftrightarrow> (\<forall>x \<in> set s. P x)"
proof
  assume e: "strip_ends P s = []"
  show "\<forall>x \<in> set s. P x"
  proof (cases "dropWhile P s")
    case Nil
    then show ?thesis by (simp only: dropWhile_eq_Nil_conv)
  next
    case (Cons x ts)
    with e show ?thesis by (simp add: strip_ends_unfold Cons)
  qed
next
  assume "\<forall>x \<in> set s. P x"
  then have dw: "dropWhile P s = []" by (simp only: dropWhile_eq_Nil_conv)
  show "strip_ends P s = []" by (simp add: strip_ends_def dw)
qed

lemma sanitizeText_utf16_empty_iff:
  "sanitizeText_utf16 s = [] \<longleftrightarrow> (\<forall>u \<in> set s. \<not> lowers_to_alnum u)"
proof -
  let ?l = "toLowerCase_utf16 s"
  let ?a = "replace_char (\<lambda>u. \<not> unit_is_name_char u) 45 (replace_char (\<lambda>u. u = 95) 45 ?l)"
  let ?b = "strip_ends (\<lambda>u. \<not> unit_is_alnum u) ?a"
  have hy: "\<not> unit_is_alnum 45" "\<not> unit_is_alnum 95" by (simp_all add: unit_is_alnum_def)
  have l: "(\<exists>v \<in> set ?l. unit_is_alnum v) \<longleftrightarrow> (\<exists>u \<in> set s. lowers_to_alnum u)"
    unfolding toLowerCase_utf16_def
    using lower_unit_alnum lowers_to_alnum_lower_unit by fastforce
  have a: "(\<exists>v \<in> set ?a. unit_is_alnum v) \<longleftrightarrow> (\<exists>v \<in> set ?l. unit_is_alnum v)"
    using hy by (auto simp: replace_char_def unit_is_name_char_def unit_is_alnum_def)
  have b: "?b = [] \<longleftrightarrow> (\<forall>v \<in> set ?a. \<not> unit_is_alnum v)"
    by (simp only: strip_ends_Nil_iff)
  have c: "sanitizeText_utf16 s = [] \<longleftrightarrow> ?b = []"
  proof
    assume "?b = []"
    then show "sanitizeText_utf16 s = []"
      by (simp add: sanitizeText_utf16_def Let_def) (simp add: strip_ends_def)
  next
    assume e: "sanitizeText_utf16 s = []"
    show "?b = []"
    proof (rule ccontr)
      assume ne: "?b \<noteq> []"
      let ?c = "collapse 46 (collapse 45 ?b)"
      have cne: "?c \<noteq> []" using ne by simp
      have "\<not> \<not> unit_is_alnum (hd ?b)" using ne by (rule strip_ends_hd)
      then have "\<not> unit_is_sep (hd ?c)" by (auto simp: unit_class_defs)
      moreover have "hd ?c \<in> set ?c" using cne by (rule hd_in_set)
      ultimately have "\<not> (\<forall>x \<in> set ?c. unit_is_sep x)" by blast
      then have "strip_ends unit_is_sep ?c \<noteq> []"
        using strip_ends_Nil_iff [of unit_is_sep ?c] by blast
      with e show False by (simp add: sanitizeText_utf16_def Let_def)
    qed
  qed
  show ?thesis using l a b c by blast
qed

subsection \<open>Agreement of the two sanitizers on strings of code units below 256\<close>

lemma unit_classes_of_char:
  "unit_is_alnum (of_char c) = is_alnum c"
  "unit_is_sep (of_char c) = is_sep c"
  "unit_is_name_char (of_char c) = is_name_char c"
proof -
  have d: "(of_char c :: nat) = 46 \<longleftrightarrow> c = CHR ''.''" "(of_char c :: nat) = 45 \<longleftrightarrow> c = CHR ''-''"
    using of_char_eq_iff [of c "CHR ''.''", where ?'a = nat]
      of_char_eq_iff [of c "CHR ''-''", where ?'a = nat] by simp_all
  show "unit_is_alnum (of_char c) = is_alnum c"
    by (simp add: unit_is_alnum_def is_alnum_def is_lower_def is_digit_def)
  show s: "unit_is_sep (of_char c) = is_sep c"
    by (simp add: unit_is_sep_def is_sep_def d)
  show "unit_is_name_char (of_char c) = is_name_char c"
    by (simp add: unit_is_name_char_def is_name_char_def s unit_is_alnum_def is_alnum_def
        is_lower_def is_digit_def)
qed

lemma lower_unit_of_char: "lower_unit (of_char c) = [of_char (toLower c)]"
proof -
  have lt: "(of_char c :: nat) < 256" by simp
  show ?thesis
  proof (cases "(65 \<le> (of_char c :: nat) \<and> (of_char c :: nat) \<le> 90)
      \<or> (192 \<le> (of_char c :: nat) \<and> (of_char c :: nat) \<le> 222 \<and> (of_char c :: nat) \<noteq> 215)")
    case True
    then have "((of_char c :: nat) + 32) mod 256 = of_char c + 32" by auto
    with True show ?thesis by (simp add: lower_unit_def toLower_def Let_def)
  next
    case False
    have "(of_char c :: nat) \<noteq> 0x130" "(of_char c :: nat) \<noteq> 0x212A" using lt by linarith+
    with False show ?thesis by (auto simp: lower_unit_def toLower_def Let_def)
  qed
qed

lemma toLowerCase_units: "toLowerCase_utf16 (units s) = units (toLowerCase s)"
  by (induction s) (simp_all add: toLowerCase_utf16_def units_def toLowerCase_def lower_unit_of_char)

lemma replace_char_map:
  "f r' = r \<Longrightarrow> replace_char P r (map f s) = map f (replace_char (\<lambda>c. P (f c)) r' s)"
  by (simp add: replace_char_def)

lemma strip_ends_map: "strip_ends P (map f s) = map f (strip_ends (\<lambda>c. P (f c)) s)"
  by (simp add: strip_ends_def dropWhile_map rev_map comp_def)

lemma collapse_map: "inj f \<Longrightarrow> collapse (f c) (map f s) = map f (collapse c s)"
  by (induction c s rule: collapse.induct) (auto simp: inj_eq)

lemma sanitizeText_units: "sanitizeText_utf16 (units s) = units (sanitizeText s)"
proof -
  have i: "inj (of_char :: char \<Rightarrow> nat)" by (rule inj_of_char)
  have h: "(of_char (CHR ''-'') :: nat) = 45" "(of_char (CHR ''.'') :: nat) = 46" by simp_all
  have u: "\<And>c. (of_char c :: nat) = 95 \<longleftrightarrow> c = CHR ''_''"
    using of_char_eq_iff [of _ "CHR ''_''", where ?'a = nat] by simp
  have c45: "\<And>t. collapse 45 (map of_char t) = map (of_char :: char \<Rightarrow> nat) (collapse (CHR ''-'') t)"
    using collapse_map [OF i, of "CHR ''-''"] by (simp only: h)
  have c46: "\<And>t. collapse 46 (map of_char t) = map (of_char :: char \<Rightarrow> nat) (collapse (CHR ''.'') t)"
    using collapse_map [OF i, of "CHR ''.''"] by (simp only: h)
  have r1: "\<And>t. replace_char (\<lambda>u. u = 95) 45 (map of_char t)
      = map (of_char :: char \<Rightarrow> nat) (replace_char (\<lambda>c. c = CHR ''_'') (CHR ''-'') t)"
    using replace_char_map [of "of_char :: char \<Rightarrow> nat" "CHR ''-''" 45 "\<lambda>u. u = 95"]
    by (simp add: u)
  have r2: "\<And>t. replace_char (\<lambda>u. \<not> unit_is_name_char u) 45 (map of_char t)
      = map (of_char :: char \<Rightarrow> nat) (replace_char (\<lambda>c. \<not> is_name_char c) (CHR ''-'') t)"
    using replace_char_map [of "of_char :: char \<Rightarrow> nat" "CHR ''-''" 45
        "\<lambda>u. \<not> unit_is_name_char u"]
    by (simp add: unit_classes_of_char)
  show ?thesis
    unfolding sanitizeText_utf16_def sanitizeText_def Let_def toLowerCase_units
    unfolding units_def
    by (simp only: r1 r2 strip_ends_map unit_classes_of_char c45 c46)
qed

subsection \<open>The name of an archive whose script name sanitizes to nothing\<close>

lemma archiveTest_success_filename:
  assumes "fst (archiveTest io w script_path outputDirectory) = Inr result"
  shows "archiveFilename result =
           ''archive-'' @ sanitizeText (parse_name script_path) @ ''-''
             @ show_nat (clock_read io w) @ ''.tar''"
  using archiveTest_success(1,2) [OF assms] by (simp only: basename_join_archive_name)

lemma createConfigMap_success_name:
  assumes "fst (createConfigMap io w archiveResult ns) = Inr result"
  shows "configMapName result = parse_name (archiveFilename archiveResult)"
  using assms
  by (auto simp: createConfigMap_def Let_def split: if_splits option.splits sum.splits)

text \<open>
  Claim C10, as stated: every string without an alphanumeric character is sanitized to
  the empty string. The Kelvin sign U+212A and the capital I with dot above U+0130 are
  neither ASCII letters nor digits, but \<^verbatim>\<open>toLowerCase\<close> turns the first into \<^verbatim>\<open>k\<close>
  and the second into \<^verbatim>\<open>i\<close> followed by U+0307: the strings made of one such
  character are sanitized to \<^verbatim>\<open>k\<close> and to \<^verbatim>\<open>i\<close>.
\<close>

theorem sanitizeText_kelvin_sign_counterexample:
  "list_all (\<lambda>u. \<not> unit_is_ascii_alnum u) [0x212A]
   \<and> sanitizeText_utf16 [0x212A] = units ''k''
   \<and> list_all (\<lambda>u. \<not> unit_is_ascii_alnum u) [0x130]
   \<and> sanitizeText_utf16 [0x130] = units ''i''
   \<and> units ''k'' \<noteq> [] \<and> units ''i'' \<noteq> []"
  by (simp add: utf16_eval unit_is_ascii_alnum_def)

text \<open>
  Claim C10, amended. A string that contains no ASCII letter or digit, no Kelvin sign
  U+212A and no capital I with dot above U+0130 (such as \<^verbatim>\<open>___\<close> or \<^verbatim>\<open>!!!\<close>) is
  sanitized to the empty string. Hence a successful \<^verbatim>\<open>archive\<close> of a script whose base
  name sanitizes to the empty string yields the file name
  \<^verbatim>\<open>archive--<epoch-millis>.tar\<close>, which contains a double hyphen, and every successful
  \<^verbatim>\<open>publish\<close> of that result yields a resource name that begins with \<^verbatim>\<open>archive--\<close>.
\<close>

theorem empty_sanitized_name_gives_double_hyphen:
  "((\<forall>u \<in> set s. \<not> unit_is_ascii_alnum u \<and> u \<noteq> 0x130 \<and> u \<noteq> 0x212A) \<longrightarrow>
      sanitizeText_utf16 s = [])
   \<and> (sanitizeText (parse_name script_path) = []
        \<and> fst (archiveTest io w script_path outputDirectory) = Inr result \<longrightarrow>
      archiveFilename result = ''archive--'' @ show_nat (clock_read io w) @ ''.tar''
      \<and> (\<exists>u v. archiveFilename result = u @ ''--'' @ v)
      \<and> (\<forall>io' w' ns published.
            fst (createConfigMap io' w' result ns) = Inr published \<longrightarrow>
            configMapName published = ''archive--'' @ show_nat (clock_read io w)))"
proof (intro conjI impI)
  assume "\<forall>u \<in> set s. \<not> unit_is_ascii_alnum u \<and> u \<noteq> 0x130 \<and> u \<noteq> 0x212A"
  then have "\<forall>u \<in> set s. \<not> lowers_to_alnum u" by (simp add: lowers_to_alnum_def)
  then show "sanitizeText_utf16 s = []" by (simp only: sanitizeText_utf16_empty_iff)
next
  assume a: "sanitizeText (parse_name script_path) = []
        \<and> fst (archiveTest io w script_path outputDirectory) = Inr result"
  then have f: "archiveFilename result = ''archive--'' @ show_nat (clock_read io w) @ ''.tar''"
    using archiveTest_success_filename [of io w script_path outputDirectory result] by simp
  then show "archiveFilename result = ''archive--'' @ show_nat (clock_read io w) @ ''.tar''" .
  have "archiveFilename result = ''archive'' @ ''--'' @ (show_nat (clock_read io w) @ ''.tar'')"
    using f by simp
  then show "\<exists>u v. archiveFilename result = u @ ''--'' @ v" by blast
  show "\<forall>io' w' ns published.
            fst (createConfigMap io' w' result ns) = Inr published \<longrightarrow>
            configMapName published = ''archive--'' @ show_nat (clock_read io w)"
  proof (intro allI impI)
    fix io' w' ns published
    assume "fst (createConfigMap io' w' result ns) = Inr published"
    then have "configMapName published = parse_name (archiveFilename result)"
      by (rule createConfigMap_success_name)
    also have "\<dots> = parse_name (''archive-'' @ sanitizeText (parse_name script_path) @ ''-''
                         @ show_nat (clock_read io w) @ ''.tar'')"
      using f a by simp
    also have "\<dots> = ''archive-'' @ sanitizeText (parse_name script_path) @ ''-''
                         @ show_nat (clock_read io w)"
      by (rule parse_name_archive_name)
    finally show "configMapName published = ''archive--'' @ show_nat (clock_read io w)"
      using a by simp
  qed
qed

theorem empty_sanitized_name_gives_double_hyphen_witness:
  "list_all (\<lambda>u. \<not> unit_is_ascii_alnum u \<and> u \<noteq> 0x130 \<and> u \<noteq> 0x212A) (units ''___'')
   \<and> sanitizeText_utf16 (units ''___'') = []
   \<and> list_all (\<lambda>u. \<not> unit_is_ascii_alnum u \<and> u \<noteq> 0x130 \<and> u \<noteq> 0x212A) (units ''!!!'')
   \<and> sanitizeText_utf16 (units ''!!!'') = []
   \<and> sanitizeText (parse_name ''___.js'') = []
   \<and> fst (archiveTest (sample_io 250) sample_world ''___.js'' (Some ''out''))
       = Inr \<lparr> archivePath = ''out/archive--1700000000250.tar'',
               archiveFilename = ''archive--1700000000250.tar'',
               scriptPath = ''___.js'', scriptFilename = ''___.js'' \<rparr>
   \<and> fst (createConfigMap (sample_io 250)
            (fst (snd (archiveTest (sample_io 250) sample_world ''___.js'' (Some ''out''))))
            \<lparr> archivePath = ''out/archive--1700000000250.tar'',
              archiveFilename = ''archive--1700000000250.tar'',
              scriptPath = ''___.js'', scriptFilename = ''___.js'' \<rparr> ''default'')
       = Inr \<lparr> cm_namespace = ''default'', configMapName = ''archive--1700000000250'',
               cm_archivePath = ''out/archive--1700000000250.tar'',
               cm_archiveFilename = ''archive--1700000000250.tar'' \<rparr>
   \<and> ''archive--1700000000250''
       = ''archive--'' @ show_nat (clock_read (sample_io 250) sample_world)"
proof -
  let ?r = "\<lparr> archivePath = ''out/archive--1700000000250.tar'',
              archiveFilename = ''archive--1700000000250.tar'',
              scriptPath = ''___.js'', scriptFilename = ''___.js'' \<rparr>"
  let ?p = "\<lparr> cm_namespace = ''default'', configMapName = ''archive--1700000000250'',
               cm_archivePath = ''out/archive--1700000000250.tar'',
               cm_archiveFilename = ''archive--1700000000250.tar'' \<rparr>"
  let ?w = "fst (snd (archiveTest (sample_io 250) sample_world ''___.js'' (Some ''out'')))"
  let ?ok = "\<lambda>u. \<not> unit_is_ascii_alnum u \<and> u \<noteq> 0x130 \<and> u \<noteq> 0x212A"
  have l1: "list_all ?ok (units ''___'')"
    and l2: "list_all ?ok (units ''!!!'')"
    by (simp_all add: units_def unit_is_ascii_alnum_def unit_is_alnum_def)
  have h1: "\<forall>u \<in> set (units ''___''). ?ok u"
    and h2: "\<forall>u \<in> set (units ''!!!''). ?ok u"
    using l1 l2 by (simp_all only: list_all_iff)
  have c3: "sanitizeText (parse_name ''___.js'') = []"
    by (simp add: path_defs sanitize_eval)
  have run: "fst (archiveTest (sample_io 250) sample_world ''___.js'' (Some ''out'')) = Inr ?r"
    by (simp add: model_eval path_defs sanitize_eval show_nat_eval)
  have pub: "fst (createConfigMap (sample_io 250) ?w ?r ''default'') = Inr ?p"
    by (simp add: model_eval path_defs sanitize_eval show_nat_eval)
  note t1 = empty_sanitized_name_gives_double_hyphen
    [of "units ''___''" "''___.js''" "sample_io 250" sample_world "Some ''out''" ?r]
  note t2 = empty_sanitized_name_gives_double_hyphen
    [of "units ''!!!''" "''___.js''" "sample_io 250" sample_world "Some ''out''" ?r]
  have c1: "sanitizeText_utf16 (units ''___'') = []" using t1 [THEN conjunct1] h1 by blast
  have c2: "sanitizeText_utf16 (units ''!!!'') = []" using t2 [THEN conjunct1] h2 by blast
  have "configMapName ?p = ''archive--'' @ show_nat (clock_read (sample_io 250) sample_world)"
    using t1 [THEN conjunct2] c3 run pub by blast
  moreover have "clock_read (sample_io 250) sample_world = 1700000000250"
    by (simp add: model_eval)
  moreover have "show_nat 1700000000250 = ''1700000000250''"
    by (simp add: show_nat_eval)
  ultimately have c4: "''archive--1700000000250''
       = ''archive--'' @ show_nat (clock_read (sample_io 250) sample_world)"
    by simp
  from l1 l2 c1 c2 c3 run pub c4 show ?thesis by blast
qed

subsection \<open>The millisecond suffix\<close>

text \<open>
  Claim C8, as stated: any two successful archive calls on the same script in one process
  run have different \<^verbatim>\<open>archivePath\<close> values. The only varying part of the path is
  \<^verbatim>\<open>Date.now()\<close>, and the code does nothing to make two readings differ: when the second
  call reads the same millisecond as the first (calls that overlap, a clock that is set
  back), both return one and the same path. Below, the second call starts in the state
  the first one left behind, on a machine whose clock shows the same millisecond.
\<close>

theorem archiveTest_same_millisecond_counterexample:
  "fst (archiveTest (sample_io 0) sample_world ''samples/k6_script_sample_2.js'' None)
     = Inr \<lparr> archivePath = ''archive-k6-script-sample-2-1700000000000.tar'',
             archiveFilename = ''archive-k6-script-sample-2-1700000000000.tar'',
             scriptPath = ''samples/k6_script_sample_2.js'',
             scriptFilename = ''k6_script_sample_2.js'' \<rparr>
   \<and> fst (archiveTest (sample_io 0)
            (fst (snd (archiveTest (sample_io 0) sample_world
                         ''samples/k6_script_sample_2.js'' None)))
            ''samples/k6_script_sample_2.js'' None)
     = Inr \<lparr> archivePath = ''archive-k6-script-sample-2-1700000000000.tar'',
             archiveFilename = ''archive-k6-script-sample-2-1700000000000.tar'',
             scriptPath = ''samples/k6_script_sample_2.js'',
             scriptFilename = ''k6_script_sample_2.js'' \<rparr>"
  by (simp add: model_eval path_defs sanitize_eval show_nat_eval)

text \<open>
  Claim C8, amended. Two successful archive calls on the same script and output directory
  return different \<^verbatim>\<open>archivePath\<close> values whenever the two calls read different values
  of \<^verbatim>\<open>Date.now()\<close>.
\<close>

theorem archivePath_distinct_for_distinct_clock_readings:
  assumes "fst (archiveTest io1 w1 script_path outputDirectory) = Inr r1"
    and "fst (archiveTest io2 w2 script_path outputDirectory) = Inr r2"
    and "clock_read io1 w1 \<noteq> clock_read io2 w2"
  shows "archivePath r1 \<noteq> archivePath r2"
proof
  assume eq: "archivePath r1 = archivePath r2"
  have "archiveFilename r1 = basename (archivePath r1)"
    and "archiveFilename r2 = basename (archivePath r2)"
    using archiveTest_success(2) assms(1,2) by blast+
  with eq have "archiveFilename r1 = archiveFilename r2" by simp
  then have "show_nat (clock_read io1 w1) = show_nat (clock_read io2 w2)"
    using archiveTest_success_filename [OF assms(1)] archiveTest_success_filename [OF assms(2)]
    by simp
  then have "clock_read io1 w1 = clock_read io2 w2" by (rule show_nat_inj)
  with assms(3) show False by contradiction
qed

theorem archivePath_distinct_for_distinct_clock_readings_witness:
  "fst (archiveTest (sample_io 250) sample_world ''samples/k6_script_sample_2.js'' None)
     = Inr \<lparr> archivePath = ''archive-k6-script-sample-2-1700000000250.tar'',
             archiveFilename = ''archive-k6-script-sample-2-1700000000250.tar'',
             scriptPath = ''samples/k6_script_sample_2.js'',
             scriptFilename = ''k6_script_sample_2.js'' \<rparr>
   \<and> fst (archiveTest (sample_io 250)
            (fst (snd (archiveTest (sample_io 250) sample_world
                         ''samples/k6_script_sample_2.js'' None)))
            ''samples/k6_script_sample_2.js'' None)
     = Inr \<lparr> archivePath = ''archive-k6-script-sample-2-1700000000750.tar'',
             archiveFilename = ''archive-k6-script-sample-2-1700000000750.tar'',
             scriptPath = ''samples/k6_script_sample_2.js'',
             scriptFilename = ''k6_script_sample_2.js'' \<rparr>
   \<and> clock_read (sample_io 250) sample_world = 1700000000250
   \<and> clock_read (sample_io 250)
        (fst (snd (archiveTest (sample_io 250) sample_world
                     ''samples/k6_script_sample_2.js'' None))) = 1700000000750
   \<and> ''archive-k6-script-sample-2-1700000000250.tar''
       \<noteq> ''archive-k6-script-sample-2-1700000000750.tar''"
proof -
  let ?s = "''samples/k6_script_sample_2.js''"
  let ?w = "fst (snd (archiveTest (sample_io 250) sample_world ?s None))"
  let ?r1 = "\<lparr> archivePath = ''archive-k6-script-sample-2-1700000000250.tar'',
             archiveFilename = ''archive-k6-script-sample-2-1700000000250.tar'',
             scriptPath = ?s, scriptFilename = ''k6_script_sample_2.js'' \<rparr>"
  let ?r2 = "\<lparr> archivePath = ''archive-k6-script-sample-2-1700000000750.tar'',
             archiveFilename = ''archive-k6-script-sample-2-1700000000750.tar'',
             scriptPath = ?s, scriptFilename = ''k6_script_sample_2.js'' \<rparr>"
  have run1: "fst (archiveTest (sample_io 250) sample_world ?s None) = Inr ?r1"
    by (simp add: model_eval path_defs sanitize_eval show_nat_eval)
  have run2: "fst (archiveTest (sample_io 250) ?w ?s None) = Inr ?r2"
    by (simp add: model_eval path_defs sanitize_eval show_nat_eval)
  have k1: "clock_read (sample_io 250) sample_world = 1700000000250"
    by (simp add: model_eval)
  have k2: "clock_read (sample_io 250) ?w = 1700000000750"
    by (simp add: model_eval path_defs sanitize_eval show_nat_eval)
  have ne: "clock_read (sample_io 250) sample_world \<noteq> clock_read (sample_io 250) ?w"
    by (simp add: k1 k2)
  have "archivePath ?r1 \<noteq> archivePath ?r2"
    by (rule archivePath_distinct_for_distinct_clock_readings [OF run1 run2 ne])
  then have d: "''archive-k6-script-sample-2-1700000000250.tar''
       \<noteq> ''archive-k6-script-sample-2-1700000000750.tar''"
    by simp
  from run1 run2 k1 k2 d show ?thesis by blast
qed

subsection \<open>The name of the ConfigMap\<close>

text \<open>
  Claim C1, as stated: for every \<^verbatim>\<open>ArchiveResult\<close>, \<^verbatim>\<open>publish\<close> strips the extension
  from the archive filename and then sanitizes it, so that \<^verbatim>\<open>configMapName\<close> is always a
  valid cluster resource name. \<^verbatim>\<open>createConfigMap\<close> only strips the extension: for the
  archive \<^verbatim>\<open>My_Archive.tar\<close> it creates the ConfigMap \<^verbatim>\<open>My_Archive\<close>, which is not the
  sanitized name \<^verbatim>\<open>my-archive\<close> and, with a capital letter and an underscore, not a
  valid resource name.
\<close>

theorem createConfigMap_unsanitized_name_counterexample:
  "fst (createConfigMap (sample_io 0) sample_world (archive_at ''My_Archive.tar'') ''default'')
     = Inr \<lparr> cm_namespace = ''default'', configMapName = ''My_Archive'',
             cm_archivePath = ''My_Archive.tar'', cm_archiveFilename = ''My_Archive.tar'' \<rparr>
   \<and> sanitizeText (parse_name (archiveFilename (archive_at ''My_Archive.tar''))) = ''my-archive''
   \<and> \<not> valid_resource_name ''My_Archive''"
  by (simp add: model_eval archive_at_def path_defs sanitize_eval valid_resource_name_def)

text \<open>
  Claim C1, amended. \<^verbatim>\<open>publish\<close> derives \<^verbatim>\<open>configMapName\<close> by stripping the extension
  from the archive filename, without sanitizing it. When the archive filename has the
  form \<^verbatim>\<open>archive-<name>-<epoch-millis>.tar\<close> that \<^verbatim>\<open>archive\<close> produces, with a
  non-empty sanitized \<^verbatim>\<open><name>\<close>, then \<^verbatim>\<open>configMapName\<close> is
  \<^verbatim>\<open>archive-<name>-<epoch-millis>\<close>, it is a valid cluster resource name, and
  sanitizing it would change nothing.
\<close>

theorem createConfigMap_name_from_archive_filename:
  assumes "fst (createConfigMap io w archiveResult ns) = Inr result"
  shows "configMapName result = parse_name (archiveFilename archiveResult)
     \<and> (archiveFilename archiveResult
            = ''archive-'' @ sanitizeText n @ ''-'' @ show_nat t @ ''.tar''
          \<and> sanitizeText n \<noteq> [] \<longrightarrow>
        configMapName result = ''archive-'' @ sanitizeText n @ ''-'' @ show_nat t
        \<and> valid_resource_name (configMapName result)
        \<and> sanitizeText (configMapName result) = configMapName result)"
proof (intro conjI impI)
  show name: "configMapName result = parse_name (archiveFilename archiveResult)"
    using assms by (rule createConfigMap_success_name)
  assume a: "archiveFilename archiveResult
            = ''archive-'' @ sanitizeText n @ ''-'' @ show_nat t @ ''.tar''
          \<and> sanitizeText n \<noteq> []"
  with name show stem: "configMapName result = ''archive-'' @ sanitizeText n @ ''-'' @ show_nat t"
    by (simp only: parse_name_archive_name)
  from a have "valid_resource_name (''archive-'' @ sanitizeText n @ ''-'' @ show_nat t)"
    by (intro archive_stem_valid) simp
  with stem show valid: "valid_resource_name (configMapName result)" by simp
  then show "sanitizeText (configMapName result) = configMapName result"
    by (rule sanitizeText_fixed_point)
qed

theorem createConfigMap_name_from_archive_filename_witness:
  "fst (createConfigMap (sample_io 250)
          (fst (snd (archiveTest (sample_io 250) sample_world
                       ''samples/k6_script_sample_2.js'' None)))
          \<lparr> archivePath = ''archive-k6-script-sample-2-1700000000250.tar'',
            archiveFilename = ''archive-k6-script-sample-2-1700000000250.tar'',
            scriptPath = ''samples/k6_script_sample_2.js'',
            scriptFilename = ''k6_script_sample_2.js'' \<rparr> ''default'')
     = Inr \<lparr> cm_namespace = ''default'',
             configMapName = ''archive-k6-script-sample-2-1700000000250'',
             cm_archivePath = ''archive-k6-script-sample-2-1700000000250.tar'',
             cm_archiveFilename = ''archive-k6-script-sample-2-1700000000250.tar'' \<rparr>
   \<and> ''archive-k6-script-sample-2-1700000000250.tar''
       = ''archive-'' @ sanitizeText ''k6_script_sample_2'' @ ''-''
           @ show_nat 1700000000250 @ ''.tar''
   \<and> sanitizeText ''k6_script_sample_2'' \<noteq> []
   \<and> valid_resource_name ''archive-k6-script-sample-2-1700000000250''
   \<and> sanitizeText ''archive-k6-script-sample-2-1700000000250''
       = ''archive-k6-script-sample-2-1700000000250''"
proof -
  let ?w = "fst (snd (archiveTest (sample_io 250) sample_world
                       ''samples/k6_script_sample_2.js'' None))"
  let ?r = "\<lparr> archivePath = ''archive-k6-script-sample-2-1700000000250.tar'',
            archiveFilename = ''archive-k6-script-sample-2-1700000000250.tar'',
            scriptPath = ''samples/k6_script_sample_2.js'',
            scriptFilename = ''k6_script_sample_2.js'' \<rparr>"
  let ?p = "\<lparr> cm_namespace = ''default'',
             configMapName = ''archive-k6-script-sample-2-1700000000250'',
             cm_archivePath = ''archive-k6-script-sample-2-1700000000250.tar'',
             cm_archiveFilename = ''archive-k6-script-sample-2-1700000000250.tar'' \<rparr>"
  have pub: "fst (createConfigMap (sample_io 250) ?w ?r ''default'') = Inr ?p"
    by (simp add: model_eval path_defs sanitize_eval show_nat_eval)
  have sn: "sanitizeText ''k6_script_sample_2'' = ''k6-script-sample-2''"
    by (simp add: sanitize_eval)
  have sh: "show_nat 1700000000250 = ''1700000000250''"
    by (simp add: show_nat_eval)
  have h: "archiveFilename ?r = ''archive-'' @ sanitizeText ''k6_script_sample_2'' @ ''-''
             @ show_nat 1700000000250 @ ''.tar''
           \<and> sanitizeText ''k6_script_sample_2'' \<noteq> []"
    by (simp add: sn sh)
  note t = createConfigMap_name_from_archive_filename
    [OF pub, of "''k6_script_sample_2''" 1700000000250, THEN conjunct2, rule_format, OF h]
  have v: "valid_resource_name ''archive-k6-script-sample-2-1700000000250''"
    using t [THEN conjunct2, THEN conjunct1] by simp
  have f: "sanitizeText ''archive-k6-script-sample-2-1700000000250''
       = ''archive-k6-script-sample-2-1700000000250''"
    using t [THEN conjunct2, THEN conjunct2] by simp
  have e: "''archive-k6-script-sample-2-1700000000250.tar''
       = ''archive-'' @ sanitizeText ''k6_script_sample_2'' @ ''-''
           @ show_nat 1700000000250 @ ''.tar''"
    using h by simp
  from pub e h v f show ?thesis by blast
qed

end
